theory Spec2Isabelle
  imports Complex_Main "HOL-Library.Word" "HOL-Library.Char_ord" "HOL-Library.List_Lexorder"
begin

unbundle bit_operations_syntax

section \<open>C strings and the serial buffer\<close>

text \<open>
  A \<^verbatim>\<open>char\<close> array is a list of 8-bit characters. \<^verbatim>\<open>Init\<close> fills
  \<^verbatim>\<open>mSerialBuffer\<close> with zeros (\<^verbatim>\<open>memset\<close>), so a list stands for the bytes written
  so far and every byte behind its end still reads as NUL. The capacity
  \<^verbatim>\<open>MAX_BUFFER_SIZE\<close> is declared in the class header and is not modelled: all
  statements below are about texts that fit the buffer.
\<close>

abbreviation NUL :: char where
  "NUL \<equiv> CHR 0x00"

abbreviation CR :: char where
  "CR \<equiv> CHR 0x0D"

abbreviation LF :: char where
  "LF \<equiv> CHR 0x0A"

text \<open>The characters a C string function sees from a position: up to the first NUL.\<close>

definition cstr :: "string \<Rightarrow> string" where
  "cstr mem = takeWhile (\<lambda>c. c \<noteq> NUL) mem"

text \<open>\<^verbatim>\<open>p[i]\<close> for a pointer at the start of \<open>mem\<close>.\<close>

definition byte_at :: "string \<Rightarrow> nat \<Rightarrow> char" where
  "byte_at mem i = (if i < length mem then mem ! i else NUL)"

text \<open>Storing the bytes \<open>bs\<close> at offset \<open>p\<close>; the gap up to \<open>p\<close> is the zero fill.\<close>

definition mem_write :: "string \<Rightarrow> nat \<Rightarrow> string \<Rightarrow> string" where
  "mem_write mem p bs =
     take p mem @ replicate (p - length mem) NUL @ bs @ drop (p + length bs) mem"

text \<open>\<^verbatim>\<open>strncmp(a, b, n) == 0\<close>: the first \<open>n\<close> characters of the two C strings agree.\<close>

definition strncmp_eq :: "string \<Rightarrow> string \<Rightarrow> nat \<Rightarrow> bool" where
  "strncmp_eq a b n = (take n (cstr a) = take n (cstr b))"

section \<open>Number formatting\<close>

definition hex_digit :: "nat \<Rightarrow> char" where
  "hex_digit d = ''0123456789ABCDEF'' ! d"

fun hex_of_nat :: "nat \<Rightarrow> string" where
  "hex_of_nat n = (if n < 16 then [hex_digit n] else hex_of_nat (n div 16) @ [hex_digit (n mod 16)])"

declare hex_of_nat.simps [simp del]

text \<open>\<^verbatim>\<open>sprintf("%0wX", n)\<close>: upper-case hexadecimal, padded with zeros to at least \<open>w\<close> digits.\<close>

definition fmt_0X :: "nat \<Rightarrow> nat \<Rightarrow> string" where
  "fmt_0X w n = (let ds = hex_of_nat n in replicate (w - length ds) (CHR ''0'') @ ds)"

section \<open>CRC-16 (\<^verbatim>\<open>mtsNDISerial::ComputeCRC\<close>)\<close>

definition oddParity :: "8 word list" where
  "oddParity = [0, 1, 1, 0, 1, 0, 0, 1, 1, 0, 0, 1, 0, 1, 1, 0]"

text \<open>One pass of the \<^verbatim>\<open>while\<close> body; \<^verbatim>\<open>crc\<close> and \<^verbatim>\<open>temp\<close> are \<^verbatim>\<open>unsigned int\<close>.\<close>

definition crc_update :: "32 word \<Rightarrow> char \<Rightarrow> 32 word" where
  "crc_update crc c =
    (let temp = (of_char c XOR (crc AND 0xff)) AND 0xff;
         crc1 = drop_bit 8 crc;
         crc2 = (if (oddParity ! unat (temp AND 0x0f)) XOR (oddParity ! unat (drop_bit 4 temp)) \<noteq> 0
                 then crc1 XOR 0xc001 else crc1);
         temp1 = push_bit 6 temp;
         crc3 = crc2 XOR temp1;
         temp2 = push_bit 1 temp1
     in crc3 XOR temp2)"

fun ComputeCRC_loop :: "32 word \<Rightarrow> string \<Rightarrow> 32 word" where
  "ComputeCRC_loop crc [] = crc"
| "ComputeCRC_loop crc (c # cs) =
    (if c = NUL then crc else ComputeCRC_loop (crc_update crc c) cs)"

definition ComputeCRC :: "string \<Rightarrow> 32 word" where
  "ComputeCRC data = ComputeCRC_loop 0 data"

subsection \<open>The update rule in the specification's words\<close>

text \<open>
  The rule of section 4.1 of the specification, on unbounded naturals: the table of 16
  nibble-parity bits, \<open>t = (b XOR (crc & 0xFF)) & 0xFF\<close>, the shift right by 8, the
  conditional \<open>crc ^= 0xC001\<close>, then \<open>t <<= 6; crc ^= t; t <<= 1; crc ^= t\<close>.
\<close>

definition spec_parity_table :: "nat list" where
  "spec_parity_table = [0, 1, 1, 0, 1, 0, 0, 1, 1, 0, 0, 1, 0, 1, 1, 0]"

definition spec_crc_step :: "nat \<Rightarrow> nat \<Rightarrow> nat" where
  "spec_crc_step crc b =
    (let t = (b XOR (crc AND 0xFF)) AND 0xFF;
         crc1 = crc div 2 ^ 8;
         crc2 = (if (spec_parity_table ! (t mod 16)) XOR (spec_parity_table ! (t div 16)) = 1
                 then crc1 XOR 0xC001 else crc1);
         t1 = t * 2 ^ 6;
         crc3 = crc2 XOR t1;
         t2 = t1 * 2
     in crc3 XOR t2)"

definition spec_crc :: "nat list \<Rightarrow> nat" where
  "spec_crc bs = foldl spec_crc_step 0 bs"

section \<open>The driver's state\<close>

type_synonym vct3 = "real \<times> real \<times> real"
type_synonym vctQuatRot3 = "real \<times> real \<times> real \<times> real"  \<comment> \<open>\<open>(W, X, Y, Z)\<close>\<close>
type_synonym vctMatRot3 = "vct3 \<times> vct3 \<times> vct3"  \<comment> \<open>rows\<close>

text \<open>
  The \<^verbatim>\<open>double\<close>s of the source are idealised as reals: the statements below are
  about which values are stored where, not about rounding.
\<close>

record vctFrm3 =
  Rotation :: vctMatRot3
  Translation :: vct3

record prmPositionCartesianGet =
  Position :: vctFrm3
  Valid :: bool

record Tool =
  Name :: string
  SerialNumber :: string
  Definition :: string
  PortHandle :: string
  MainType :: string
  ManufacturerID :: string
  ToolRevision :: string
  PartNumber :: string
  TooltipOffset :: vct3
  TooltipPosition :: prmPositionCartesianGet
  MarkerPosition :: prmPositionCartesianGet
  ErrorRMS :: real
  FrameNumber :: "32 word"

datatype event = Connected string | Tracking bool | UpdatedTools

text \<open>
  What went wrong where the source has undefined behaviour: \<^verbatim>\<open>ResponseCheckCRC\<close>
  stepping back five bytes from a cursor that has not advanced that far, a write to a
  row that the 50 by 5 matrix does not have, and a port-map entry whose tool is gone.
\<close>

datatype fault = BeforeBuffer | RowOutOfRange nat | NoSuchTool string

text \<open>
  \<open>mTools\<close> is a \<^verbatim>\<open>cmnNamedMap\<close>, iterated in the order of its keys: an association
  list kept sorted by name. \<open>mPortToTool\<close> holds pointers to the tools of \<open>mTools\<close>: here
  the tool's name, under which the registry owns it. \<open>port_out\<close> collects what
  \<^verbatim>\<open>mSerialPort.Write\<close> was given, one entry per call. \<open>port_in\<close> is what the serial
  line will deliver, one entry per call of \<^verbatim>\<open>ResponseRead\<close>: the bytes its read loop
  has gathered when it ends. \<open>events\<close> are the events raised so far, oldest first.
  Log lines, status messages and \<^verbatim>\<open>Sleep\<close> are left out.
\<close>

record state =
  mIsTracking :: bool
  mTrackStrayMarkers :: bool
  mStrayMarkers :: "real list list"
  mSerialBuffer :: string
  mSerialBufferPointer :: nat
  mTools :: "(string \<times> Tool) list"
  mPortToTool :: "(string \<times> string) list"
  mToolNames :: "string list"
  port_out :: "string list"
  port_in :: "string list"
  events :: "event list"

section \<open>Command assembly\<close>

definition CommandInitialize :: "state \<Rightarrow> state" where
  "CommandInitialize s = s\<lparr>mSerialBufferPointer := 0\<rparr>"

definition CommandAppend_char :: "char \<Rightarrow> state \<Rightarrow> state" where
  "CommandAppend_char command s =
     s\<lparr>mSerialBuffer := mem_write (mSerialBuffer s) (mSerialBufferPointer s) [command],
       mSerialBufferPointer := mSerialBufferPointer s + 1\<rparr>"

definition CommandAppend_str :: "string \<Rightarrow> state \<Rightarrow> state" where
  "CommandAppend_str command s =
     (let size = length (cstr command)
      in s\<lparr>mSerialBuffer := mem_write (mSerialBuffer s) (mSerialBufferPointer s) (take size command),
            mSerialBufferPointer := mSerialBufferPointer s + size\<rparr>)"

fun dec_of_nat :: "nat \<Rightarrow> string" where
  "dec_of_nat n = (if n < 10 then [hex_digit n] else dec_of_nat (n div 10) @ [hex_digit (n mod 10)])"

declare dec_of_nat.simps [simp del]

text \<open>\<^verbatim>\<open>"%d"\<close>.\<close>

definition fmt_d :: "int \<Rightarrow> string" where
  "fmt_d i = (if i < 0 then CHR ''-'' # dec_of_nat (nat (- i)) else dec_of_nat (nat i))"

text \<open>\<^verbatim>\<open>cmn_snprintf\<close> stores the digits and a NUL; the cursor moves by the digits only.\<close>

definition CommandAppend_int :: "int \<Rightarrow> state \<Rightarrow> state" where
  "CommandAppend_int command s =
     (let ds = fmt_d command
      in s\<lparr>mSerialBuffer := mem_write (mSerialBuffer s) (mSerialBufferPointer s) (ds @ [NUL]),
            mSerialBufferPointer := mSerialBufferPointer s + length ds\<rparr>)"

text \<open>
  \<^verbatim>\<open>CommandSend(void)\<close>. The serial port takes every byte it is given, so the
  comparison of \<^verbatim>\<open>bytesSent\<close> with \<^verbatim>\<open>bytesToSend\<close> succeeds.
\<close>

definition CommandSend :: "state \<Rightarrow> state" where
  "CommandSend s =
     (let s1 = CommandAppend_char NUL (CommandAppend_char CR s)
      in s1\<lparr>port_out := port_out s1 @ [cstr (mSerialBuffer s1)]\<rparr>)"

text \<open>
  Modelled from the spec: the overload \<^verbatim>\<open>CommandSend(const char *)\<close> is defined in the
  class header, which is not among the sources. Section 4.2: the caller writes a command
  into the command buffer, which is reset at each new command; the assembler appends the
  carriage return and writes the buffer to the serial link.
\<close>

definition CommandSend_str :: "string \<Rightarrow> state \<Rightarrow> state" where
  "CommandSend_str command s = CommandSend (CommandAppend_str command (CommandInitialize s))"

section \<open>Response reading\<close>

text \<open>
  Modelled from the spec: the constant \<^verbatim>\<open>CRC_SIZE\<close> is declared in the class header,
  which is not among the sources. Section 4.2: the last 5 bytes of a response are the 4
  CRC hex digits and the carriage return.
\<close>

definition CRC_SIZE :: nat where
  "CRC_SIZE = 4"

definition ResponseCheckCRC :: "state \<Rightarrow> fault + bool \<times> state" where
  "ResponseCheckCRC s =
     (if mSerialBufferPointer s < CRC_SIZE + 1 then Inl BeforeBuffer
      else
        let crcPointer = mSerialBufferPointer s - (CRC_SIZE + 1);
            receivedCRC = cstr (take CRC_SIZE (drop crcPointer (mSerialBuffer s)));
            s1 = s\<lparr>mSerialBuffer := mem_write (mSerialBuffer s) crcPointer [NUL],
                   mSerialBufferPointer := crcPointer + 1\<rparr>;
            computedCRC = take CRC_SIZE (fmt_0X 4 (unat (ComputeCRC (mSerialBuffer s1))))
        in Inr (strncmp_eq receivedCRC computedCRC CRC_SIZE, s1))"

text \<open>
  \<^verbatim>\<open>ResponseRead(void)\<close>. The read loop ends when the last byte gathered is a carriage
  return, or when the time is up; an exhausted \<open>port_in\<close> is a silent line. A message
  that has arrived has arrived in time.
\<close>

definition ResponseRead :: "state \<Rightarrow> fault + bool \<times> state" where
  "ResponseRead s =
     (let bytes = (case port_in s of [] \<Rightarrow> [] | b # _ \<Rightarrow> b);
          s1 = s\<lparr>mSerialBuffer := mem_write (mSerialBuffer s) 0 bytes,
                 mSerialBufferPointer := length bytes,
                 port_in := tl (port_in s)\<rparr>;
          receivedMessage = (bytes \<noteq> [] \<and> last bytes = CR)
      in if \<not> receivedMessage then Inr (False, s1) else ResponseCheckCRC s1)"

text \<open>
  Modelled from the spec: \<^verbatim>\<open>GetSerialBufferStringSize\<close> is defined in the class header,
  which is not among the sources. Section 4.2 compares the payload with the expected
  literal; the payload ends one byte before the cursor, where the CRC check has put the
  NUL.
\<close>

definition GetSerialBufferStringSize :: "state \<Rightarrow> nat" where
  "GetSerialBufferStringSize s = mSerialBufferPointer s - 1"

definition ResponseRead_expected :: "string \<Rightarrow> state \<Rightarrow> fault + bool \<times> state" where
  "ResponseRead_expected expectedMessage s =
     (case ResponseRead s of
        Inl f \<Rightarrow> Inl f
      | Inr (ok, s1) \<Rightarrow>
          if \<not> ok then Inr (False, s1)
          else if \<not> strncmp_eq expectedMessage (mSerialBuffer s1) (GetSerialBufferStringSize s1)
          then Inr (False, s1)
          else Inr (True, s1))"

section \<open>\<^verbatim>\<open>Beep\<close>\<close>

function Beep_loop :: "int \<Rightarrow> state \<Rightarrow> fault + state" where
  "Beep_loop numberOfBeeps s =
     (let s1 = CommandSend (CommandAppend_int numberOfBeeps
                 (CommandAppend_str ''BEEP '' (CommandInitialize s)))
      in case ResponseRead s1 of
           Inl f \<Rightarrow> Inl f
         | Inr (ok, s2) \<Rightarrow>
             if \<not> ok then Inr s2
             else if strncmp_eq ''0'' (mSerialBuffer s2) 1 then Beep_loop numberOfBeeps s2
             else Inr s2)"
  by pat_completeness auto
termination
proof (relation "measure (\<lambda>(n, s). length (port_in s))")
  show "wf (measure (\<lambda>(n, s). length (port_in s)))" by simp
next
  fix numberOfBeeps :: int and s s1 :: state and r :: "bool \<times> state" and ok :: bool and s2 :: state
  assume s1: "s1 = CommandSend (CommandAppend_int numberOfBeeps
                 (CommandAppend_str ''BEEP '' (CommandInitialize s)))"
    and rr: "ResponseRead s1 = Inr r" "(ok, s2) = r" and ok: "\<not> \<not> ok"
  have in1: "port_in s1 = port_in s"
    by (simp add: s1 CommandSend_def CommandAppend_int_def CommandAppend_str_def
        CommandAppend_char_def CommandInitialize_def Let_def)
  have "port_in s1 \<noteq> [] \<and> port_in s2 = tl (port_in s1)"
    using rr ok
    by (auto simp: ResponseRead_def ResponseCheckCRC_def Let_def split: list.splits if_splits)
  then have "length (port_in s2) < length (port_in s1)"
    by (cases "port_in s1") simp_all
  then show "((numberOfBeeps, s2), (numberOfBeeps, s)) \<in> measure (\<lambda>(n, s). length (port_in s))"
    by (simp add: in1)
qed

declare Beep_loop.simps [simp del]

text \<open>
  The range check of \<^verbatim>\<open>Beep\<close> only writes a log line: both branches go on to the
  loop. The final comparison with \<^verbatim>\<open>"1"\<close> only selects a log line, too.
\<close>

definition Beep :: "int \<Rightarrow> state \<Rightarrow> fault + state" where
  "Beep numberOfBeeps s =
     (if numberOfBeeps < 1 \<or> numberOfBeeps > 9
      then Beep_loop numberOfBeeps s
      else Beep_loop numberOfBeeps s)"

section \<open>\<^verbatim>\<open>LoadToolDefinitionFile\<close>\<close>

text \<open>
  \<^verbatim>\<open>toolDefinitionFile.read(input, 64)\<close>: the bytes still in the file, at most 64, go
  to the front of \<open>input\<close>; what a short read does not reach keeps its old contents.
\<close>

definition ifstream_read :: "string \<Rightarrow> string \<Rightarrow> string \<times> string" where
  "ifstream_read input rest =
     (let got = take 64 rest in (got @ drop (length got) input, drop 64 rest))"

text \<open>The inner loop: \<^verbatim>\<open>"%02X"\<close> of each of the 64 bytes of \<open>input\<close>.\<close>

definition hex_encode :: "string \<Rightarrow> string" where
  "hex_encode input = concat (map (\<lambda>c. fmt_0X 2 (of_char c)) input)"

text \<open>The \<^verbatim>\<open>for\<close> loop over the chunks, from chunk \<open>i\<close> on, with \<open>k\<close> chunks to go.\<close>

fun upload_chunks :: "string \<Rightarrow> nat \<Rightarrow> nat \<Rightarrow> string \<Rightarrow> string \<Rightarrow> state \<Rightarrow> fault + state" where
  "upload_chunks portHandle 0 i input rest s = Inr s"
| "upload_chunks portHandle (Suc k) i input rest s =
     (let (input1, rest1) = ifstream_read input rest;
          output = hex_encode input1;
          address = fmt_0X 4 (i * 64);
          s1 = CommandSend (CommandAppend_str output (CommandAppend_str address
                 (CommandAppend_str portHandle (CommandAppend_str ''PVWR '' (CommandInitialize s)))))
      in case ResponseRead_expected ''OKAY'' s1 of
           Inl f \<Rightarrow> Inl f
         | Inr (_, s2) \<Rightarrow> upload_chunks portHandle k (Suc i) input1 rest1 s2)"

text \<open>
  The file system is outside the driver: the argument is what the \<^verbatim>\<open>ifstream\<close>
  delivers, \<open>None\<close> for a file that cannot be opened, else its bytes.
\<close>

definition LoadToolDefinitionFile :: "string \<Rightarrow> string option \<Rightarrow> state \<Rightarrow> fault + state" where
  "LoadToolDefinitionFile portHandle toolDefinitionFile s =
     (case toolDefinitionFile of
        None \<Rightarrow> Inr s
      | Some bytes \<Rightarrow>
          let fileSize = length bytes;
              definitionSize = fileSize * 2;
              paddingSize = 128 - (definitionSize mod 128);
              numChunks = (definitionSize + paddingSize) div 128
          in if fileSize > 960 then Inr s
             else upload_chunks portHandle numChunks 0 (replicate 64 NUL) bytes s)"

section \<open>The tool registry\<close>

definition CheckTool :: "string \<Rightarrow> state \<Rightarrow> Tool option" where
  "CheckTool serialNumber s =
     map_option snd (find (\<lambda>(name, tool). SerialNumber tool = serialNumber) (mTools s))"

text \<open>
  \<^verbatim>\<open>Tool::Tool\<close> sets the tooltip offset to zero; the strings start empty, the frames
  as the identity and not valid.
\<close>

definition identity_frame :: vctFrm3 where
  "identity_frame = \<lparr>Rotation = ((1, 0, 0), (0, 1, 0), (0, 0, 1)), Translation = (0, 0, 0)\<rparr>"

definition new_Tool :: Tool where
  "new_Tool = \<lparr>Name = [], SerialNumber = [], Definition = [], PortHandle = [], MainType = [],
     ManufacturerID = [], ToolRevision = [], PartNumber = [], TooltipOffset = (0, 0, 0),
     TooltipPosition = \<lparr>Position = identity_frame, Valid = False\<rparr>,
     MarkerPosition = \<lparr>Position = identity_frame, Valid = False\<rparr>,
     ErrorRMS = 0, FrameNumber = 0\<rparr>"

text \<open>\<^verbatim>\<open>cmnNamedMap::AddItem\<close>: refused when the key is taken.\<close>

definition AddItem :: "string \<Rightarrow> 'a \<Rightarrow> (string \<times> 'a) list \<Rightarrow> (string \<times> 'a) list option" where
  "AddItem key item m =
     (if key \<in> fst ` set m then None else Some (insort_key fst (key, item) m))"

definition GetItem :: "string \<Rightarrow> (string \<times> 'a) list \<Rightarrow> 'a option" where
  "GetItem key m = map_of m key"

definition AddTool :: "string \<Rightarrow> string \<Rightarrow> string \<Rightarrow> state \<Rightarrow> Tool option \<times> state" where
  "AddTool name serialNumber toolDefinitionFile s =
     (case CheckTool serialNumber s of
        Some tool \<Rightarrow> (Some tool, s)
      | None \<Rightarrow>
          let tool = new_Tool\<lparr>Name := name, SerialNumber := serialNumber,
                               Definition := toolDefinitionFile\<rparr>
          in case AddItem (Name tool) tool (mTools s) of
               None \<Rightarrow> (None, s)
             | Some tools \<Rightarrow>
                 (Some tool, s\<lparr>mTools := tools, mToolNames := map fst tools,
                                events := events s @ [UpdatedTools]\<rparr>))"

section \<open>\<^verbatim>\<open>ToggleTracking\<close>\<close>

definition ToggleTracking :: "bool \<Rightarrow> state \<Rightarrow> fault + state" where
  "ToggleTracking track s =
     (if track = mIsTracking s then Inr s
      else if track then
        (case ResponseRead_expected ''OKAY'' (CommandSend_str ''TSTART 80'' s) of
           Inl f \<Rightarrow> Inl f
         | Inr (ok, s1) \<Rightarrow>
             if ok then Inr (s1\<lparr>mIsTracking := True, events := events s1 @ [Tracking True]\<rparr>)
             else Inr s1)
      else
        (case ResponseRead_expected ''OKAY'' (CommandSend_str ''TSTOP '' s) of
           Inl f \<Rightarrow> Inl f
         | Inr (ok, s1) \<Rightarrow>
             if ok then Inr (s1\<lparr>mIsTracking := False, events := events s1 @ [Tracking False]\<rparr>)
             else Inr s1))"

section \<open>Scanning fixed-width fields\<close>

text \<open>
  The conversions of \<^verbatim>\<open>sscanf\<close> on the fields the device sends. \<^verbatim>\<open>"%wX"\<close> reads at most
  \<open>w\<close> hexadecimal digits and \<^verbatim>\<open>"%wlf"\<close> at most \<open>w\<close> characters, a sign and decimal
  digits; a conversion that finds no digit fails and leaves its variable as it was.
  White space, prefixes, fractions and exponents, which the protocol does not use, count
  as no digit.
\<close>

definition is_digit :: "char \<Rightarrow> bool" where
  "is_digit c = (CHR ''0'' \<le> c \<and> c \<le> CHR ''9'')"

definition is_upper_hex :: "char \<Rightarrow> bool" where
  "is_upper_hex c = (is_digit c \<or> (CHR ''A'' \<le> c \<and> c \<le> CHR ''F''))"

definition is_hex :: "char \<Rightarrow> bool" where
  "is_hex c = (is_upper_hex c \<or> (CHR ''a'' \<le> c \<and> c \<le> CHR ''f''))"

definition hex_val :: "char \<Rightarrow> nat" where
  "hex_val c = (if is_digit c then of_char c - 48
                else if CHR ''A'' \<le> c \<and> c \<le> CHR ''F'' then of_char c - 55
                else of_char c - 87)"

text \<open>The number that a string of digits denotes, to the base 16 and to the base 10.\<close>

definition hex_value :: "string \<Rightarrow> nat" where
  "hex_value ds = foldl (\<lambda>a c. 16 * a + hex_val c) 0 ds"

definition dec_value :: "string \<Rightarrow> nat" where
  "dec_value ds = foldl (\<lambda>a c. 10 * a + hex_val c) 0 ds"

definition scan_X :: "nat \<Rightarrow> string \<Rightarrow> nat option" where
  "scan_X w text =
     (let ds = takeWhile is_hex (take w text)
      in if ds = [] then None else Some (hex_value ds))"

definition scan_lf :: "nat \<Rightarrow> string \<Rightarrow> (real \<times> string) option" where
  "scan_lf w text =
     (let signed = (text \<noteq> [] \<and> (hd text = CHR ''+'' \<or> hd text = CHR ''-''));
          body = (if signed then tl text else text);
          ds = takeWhile is_digit (take (if signed then w - 1 else w) body);
          magnitude = real (dec_value ds)
      in if ds = [] then None
         else Some (if signed \<and> hd text = CHR ''-'' then - magnitude else magnitude,
                    drop (length ds) body))"

text \<open>Several \<^verbatim>\<open>"%wlf"\<close> in one format: the values converted up to the first failure.\<close>

fun scan_lfs :: "nat list \<Rightarrow> string \<Rightarrow> real list" where
  "scan_lfs [] text = []"
| "scan_lfs (w # ws) text =
     (case scan_lf w text of None \<Rightarrow> [] | Some (v, rest) \<Rightarrow> v # scan_lfs ws rest)"

text \<open>The \<open>i\<close>-th variable of such a call afterwards.\<close>

definition scanned :: "real list \<Rightarrow> nat \<Rightarrow> real \<Rightarrow> real" where
  "scanned vals i old = (if i < length vals then vals ! i else old)"

section \<open>\<^verbatim>\<open>Track\<close>\<close>

definition vct3_Divide :: "vct3 \<Rightarrow> real \<Rightarrow> vct3" where
  "vct3_Divide v d = (case v of (x, y, z) \<Rightarrow> (x / d, y / d, z / d))"

definition vct3_Multiply :: "vct3 \<Rightarrow> real \<Rightarrow> vct3" where
  "vct3_Multiply v m = (case v of (x, y, z) \<Rightarrow> (x * m, y * m, z * m))"

definition vct3_add :: "vct3 \<Rightarrow> vct3 \<Rightarrow> vct3" where
  "vct3_add u v = (case (u, v) of ((a, b, c), (x, y, z)) \<Rightarrow> (a + x, b + y, c + z))"

definition vct3_dot :: "vct3 \<Rightarrow> vct3 \<Rightarrow> real" where
  "vct3_dot u v = (case (u, v) of ((a, b, c), (x, y, z)) \<Rightarrow> a * x + b * y + c * z)"

text \<open>Rotation times vector.\<close>

definition rot_apply :: "vctMatRot3 \<Rightarrow> vct3 \<Rightarrow> vct3" where
  "rot_apply R v = (case R of (r0, r1, r2) \<Rightarrow> (vct3_dot r0 v, vct3_dot r1 v, vct3_dot r2 v))"

definition quat_Divide :: "vctQuatRot3 \<Rightarrow> real \<Rightarrow> vctQuatRot3" where
  "quat_Divide q d = (case q of (w, x, y, z) \<Rightarrow> (w / d, x / d, y / d, z / d))"

text \<open>
  The locals of \<^verbatim>\<open>Track\<close> that live across the rows of a reply. The source does not
  initialise them: their contents at entry are an argument.
\<close>

record track_locals =
  portHandle :: string
  toolOrientation :: vctQuatRot3
  toolPosition :: vct3

definition set_tool :: "string \<Rightarrow> Tool \<Rightarrow> state \<Rightarrow> state" where
  "set_tool name tool s =
     s\<lparr>mTools := map (\<lambda>(k, t). if k = name then (k, tool) else (k, t)) (mTools s)\<rparr>"

definition SetValid :: "bool \<Rightarrow> prmPositionCartesianGet \<Rightarrow> prmPositionCartesianGet" where
  "SetValid v p = p\<lparr>Valid := v\<rparr>"

text \<open>
  The numeric branch of a row (lines 1112 to 1129). \<open>cmn_mm\<close> and the conversion
  \<^verbatim>\<open>FromRaw\<close> of a quaternion to a rotation belong to the cisst library and are
  arguments.
\<close>

definition Track_numeric ::
    "real \<Rightarrow> (vctQuatRot3 \<Rightarrow> vctMatRot3) \<Rightarrow> string \<Rightarrow> track_locals \<Rightarrow> Tool \<Rightarrow> track_locals \<times> Tool" where
  "Track_numeric cmn_mm FromRaw text L tool =
     (let vals = scan_lfs [6, 6, 6, 6, 7, 7, 7, 6] text;
          orientation0 = (case toolOrientation L of (w, x, y, z) \<Rightarrow>
             (scanned vals 0 w, scanned vals 1 x, scanned vals 2 y, scanned vals 3 z));
          position0 = (case toolPosition L of (x, y, z) \<Rightarrow>
             (scanned vals 4 x, scanned vals 5 y, scanned vals 6 z));
          tool0 = tool\<lparr>ErrorRMS := scanned vals 7 (ErrorRMS tool)\<rparr>;
          orientation1 = quat_Divide orientation0 10000;
          tooltipPosition1 = \<lparr>Rotation = FromRaw orientation1, Translation = (0, 0, 0)\<rparr>;
          position1 = vct3_Multiply (vct3_Divide position0 100) cmn_mm;
          tooltipPosition2 = tooltipPosition1\<lparr>Translation := position1\<rparr>;
          tool1 = tool0\<lparr>ErrorRMS := ErrorRMS tool0 / 10000\<rparr>;
          tool2 = tool1\<lparr>MarkerPosition := SetValid True
                    ((MarkerPosition tool1)\<lparr>Position := tooltipPosition2\<rparr>)\<rparr>;
          tooltipPosition3 = tooltipPosition2\<lparr>Translation :=
             vct3_add (Translation tooltipPosition2)
                      (rot_apply (Rotation tooltipPosition2) (TooltipOffset tool2))\<rparr>;
          tool3 = tool2\<lparr>TooltipPosition := SetValid True
                    ((TooltipPosition tool2)\<lparr>Position := tooltipPosition3\<rparr>)\<rparr>
      in (L\<lparr>toolOrientation := orientation1, toolPosition := position1\<rparr>, tool3))"

text \<open>
  One pass of the loop over the port handles, with the parse pointer as an offset into
  \<open>mSerialBuffer\<close>. The result is \<open>None\<close> where the source returns from \<^verbatim>\<open>Track\<close>.
\<close>

definition Track_row ::
    "real \<Rightarrow> (vctQuatRot3 \<Rightarrow> vctMatRot3) \<Rightarrow> nat \<Rightarrow> track_locals \<Rightarrow> state
      \<Rightarrow> fault + (nat \<times> track_locals) option \<times> state" where
  "Track_row cmn_mm FromRaw parsePointer L s =
     (let mem = mSerialBuffer s;
          two = take 2 (cstr (drop parsePointer mem));
          L1 = (if length two = 2 then L\<lparr>portHandle := two\<rparr> else L);
          pp1 = parsePointer + 2;
          toolKey = cstr (take 2 (portHandle L1))
      in case GetItem toolKey (mPortToTool s) of
           None \<Rightarrow> Inr (None, s)
         | Some name \<Rightarrow>
            (case GetItem name (mTools s) of
               None \<Rightarrow> Inl (NoSuchTool name)
             | Some tool \<Rightarrow>
                 let (pp2, L2, tool1) =
                       (if strncmp_eq (drop pp1 mem) ''MISSING'' 7 then
                          (pp1 + 7 + 8, L1,
                           tool\<lparr>TooltipPosition := SetValid False (TooltipPosition tool),
                                 MarkerPosition := SetValid False (MarkerPosition tool)\<rparr>)
                        else if strncmp_eq (drop pp1 mem) ''DISABLED'' 8 then
                          (pp1 + 8 + 8, L1,
                           tool\<lparr>TooltipPosition := SetValid False (TooltipPosition tool),
                                 MarkerPosition := SetValid False (MarkerPosition tool)\<rparr>)
                        else if strncmp_eq (drop pp1 mem) ''UNOCCUPIED'' 10 then
                          (pp1 + 10 + 8, L1,
                           tool\<lparr>TooltipPosition := SetValid False (TooltipPosition tool),
                                 MarkerPosition := SetValid False (MarkerPosition tool)\<rparr>)
                        else
                          (case Track_numeric cmn_mm FromRaw (drop pp1 mem) L1 tool of
                             (L', tool') \<Rightarrow> (pp1 + (4 * 6) + (3 * 7) + 6 + 8, L', tool')));
                     tool2 = (case scan_X 8 (drop pp2 mem) of
                                None \<Rightarrow> tool1
                              | Some n \<Rightarrow> tool1\<lparr>FrameNumber := of_nat n\<rparr>);
                     pp3 = pp2 + 8;
                     s1 = set_tool name tool2 s
                 in if byte_at mem pp3 \<noteq> LF then Inr (None, s1)
                    else Inr (Some (pp3 + 1, L2), s1)))"

fun Track_tools ::
    "real \<Rightarrow> (vctQuatRot3 \<Rightarrow> vctMatRot3) \<Rightarrow> nat \<Rightarrow> nat \<Rightarrow> track_locals \<Rightarrow> state
      \<Rightarrow> fault + nat option \<times> state" where
  "Track_tools cmn_mm FromRaw 0 parsePointer L s = Inr (Some parsePointer, s)"
| "Track_tools cmn_mm FromRaw (Suc k) parsePointer L s =
     (case Track_row cmn_mm FromRaw parsePointer L s of
        Inl f \<Rightarrow> Inl f
      | Inr (None, s1) \<Rightarrow> Inr (None, s1)
      | Inr (Some (pp, L1), s1) \<Rightarrow> Track_tools cmn_mm FromRaw k pp L1 s1)"

subsection \<open>The stray-marker block\<close>

text \<open>\<^verbatim>\<open>mStrayMarkers[i][j] = v\<close>; the matrix has the rows it was sized with.\<close>

definition set_cell :: "real list list \<Rightarrow> nat \<Rightarrow> nat \<Rightarrow> real \<Rightarrow> fault + real list list" where
  "set_cell M i j v = (if i < length M then Inr (M[i := (M ! i)[j := v]]) else Inl (RowOutOfRange i))"

fun set_cells :: "real list list \<Rightarrow> nat \<Rightarrow> nat \<Rightarrow> real list \<Rightarrow> fault + real list list" where
  "set_cells M i j [] = Inr M"
| "set_cells M i j (v # vs) =
     (case set_cell M i j v of Inl f \<Rightarrow> Inl f | Inr M1 \<Rightarrow> set_cells M1 i (Suc j) vs)"

definition Zeros :: "real list list \<Rightarrow> real list list" where
  "Zeros M = map (map (\<lambda>_. 0)) M"

text \<open>
  The flags: of each byte at the parse pointer the low four bits, flipped, from bit 3
  down to bit 0 (\<^verbatim>\<open>std::bitset<4>\<close>).
\<close>

definition outOfVolume_bits :: "char \<Rightarrow> bool list" where
  "outOfVolume_bits c =
     (let outOfVolumeReplyByte = NOT (of_char c :: 8 word)
      in map (\<lambda>j. bit outOfVolumeReplyByte (3 - j)) [0..<4])"

definition outOfVolumeReply_of :: "string \<Rightarrow> nat \<Rightarrow> nat \<Rightarrow> bool list" where
  "outOfVolumeReply_of mem parsePointer outOfVolumeReplySize =
     concat (map (\<lambda>i. outOfVolume_bits (byte_at mem (parsePointer + i))) [0..<outOfVolumeReplySize])"

text \<open>
  The five entries that the loop body stores for marker \<open>i\<close>, with the parse pointer at
  its coordinates. \<open>fresh i\<close> is what the uninitialised \<^verbatim>\<open>markerPositions[i]\<close> holds
  before the scan.
\<close>

definition marker_row :: "string \<Rightarrow> bool list \<Rightarrow> nat \<Rightarrow> (nat \<Rightarrow> vct3) \<Rightarrow> nat \<Rightarrow> nat \<Rightarrow> real list" where
  "marker_row mem outOfVolumeReply numGarbageBits fresh i parsePointer =
     (let vals = scan_lfs [7, 7, 7] (drop parsePointer mem);
          position0 = (case fresh i of (x, y, z) \<Rightarrow>
             (scanned vals 0 x, scanned vals 1 y, scanned vals 2 z));
          position1 = vct3_Divide position0 100;
          visibility = outOfVolumeReply ! (i + numGarbageBits)
      in case position1 of (x, y, z) \<Rightarrow> [1, of_bool visibility, x, y, z])"

text \<open>The loop over the markers, at marker \<open>i\<close> with \<open>k\<close> markers to go.\<close>

fun stray_rows ::
    "string \<Rightarrow> bool list \<Rightarrow> nat \<Rightarrow> (nat \<Rightarrow> vct3) \<Rightarrow> nat \<Rightarrow> nat \<Rightarrow> nat \<Rightarrow> real list list
      \<Rightarrow> fault + real list list" where
  "stray_rows mem outOfVolumeReply numGarbageBits fresh 0 i parsePointer M = Inr M"
| "stray_rows mem outOfVolumeReply numGarbageBits fresh (Suc k) i parsePointer M =
     (case set_cells M i 0 (marker_row mem outOfVolumeReply numGarbageBits fresh i parsePointer) of
        Inl f \<Rightarrow> Inl f
      | Inr M1 \<Rightarrow>
          stray_rows mem outOfVolumeReply numGarbageBits fresh k (Suc i) (parsePointer + 3 * 7) M1)"

text \<open>
  Lines 1142 to 1179 of \<^verbatim>\<open>Track\<close>; \<^verbatim>\<open>ReportStrayMarkers\<close> repeats them. The ceiling
  of \<open>numMarkers / 4.0\<close> is exact on a count of two hexadecimal digits.
\<close>

definition stray_block :: "(nat \<Rightarrow> vct3) \<Rightarrow> nat \<Rightarrow> state \<Rightarrow> fault + state" where
  "stray_block fresh parsePointer s =
     (let mem = mSerialBuffer s;
          numMarkers = (case scan_X 2 (drop parsePointer mem) of None \<Rightarrow> 0 | Some n \<Rightarrow> n);
          pp1 = parsePointer + 2;
          outOfVolumeReplySize = (numMarkers + 3) div 4;
          numGarbageBits = 4 * outOfVolumeReplySize - numMarkers;
          outOfVolumeReply = outOfVolumeReply_of mem pp1 outOfVolumeReplySize;
          pp2 = pp1 + outOfVolumeReplySize
      in case stray_rows mem outOfVolumeReply numGarbageBits fresh numMarkers 0 pp2
                (Zeros (mStrayMarkers s)) of
           Inl f \<Rightarrow> Inl f
         | Inr M \<Rightarrow> Inr (s\<lparr>mStrayMarkers := M\<rparr>))"

definition Track ::
    "real \<Rightarrow> (vctQuatRot3 \<Rightarrow> vctMatRot3) \<Rightarrow> track_locals \<Rightarrow> (nat \<Rightarrow> vct3) \<Rightarrow> state \<Rightarrow> fault + state" where
  "Track cmn_mm FromRaw L fresh s =
     (let s1 = (if \<not> mTrackStrayMarkers s then CommandSend_str ''TX 0001'' s
                else CommandSend_str ''TX 1001'' s)
      in case ResponseRead s1 of
           Inl f \<Rightarrow> Inl f
         | Inr (_, s2) \<Rightarrow>
             let numPortHandles = (case scan_X 2 (mSerialBuffer s2) of None \<Rightarrow> 0 | Some n \<Rightarrow> n)
             in case Track_tools cmn_mm FromRaw numPortHandles 2 L s2 of
                  Inl f \<Rightarrow> Inl f
                | Inr (None, s3) \<Rightarrow> Inr s3
                | Inr (Some parsePointer, s3) \<Rightarrow>
                    if mTrackStrayMarkers s3 then stray_block fresh parsePointer s3 else Inr s3)"

section \<open>\<^verbatim>\<open>ReportStrayMarkers\<close>\<close>

definition ReportStrayMarkers :: "(nat \<Rightarrow> vct3) \<Rightarrow> state \<Rightarrow> fault + state" where
  "ReportStrayMarkers fresh s =
     (let wasTracking = mIsTracking s
      in case ToggleTracking True s of
           Inl f \<Rightarrow> Inl f
         | Inr s1 \<Rightarrow>
            (case ResponseRead (CommandSend_str ''TX 1000'' s1) of
               Inl f \<Rightarrow> Inl f
             | Inr (_, s2) \<Rightarrow>
                 let numPortHandles = (case scan_X 2 (mSerialBuffer s2) of None \<Rightarrow> 0 | Some n \<Rightarrow> n);
                     parsePointer = 2 + numPortHandles * (2 + 1)
                 in case stray_block fresh parsePointer s2 of
                      Inl f \<Rightarrow> Inl f
                    | Inr s3 \<Rightarrow> ToggleTracking wasTracking s3))"

text \<open>\<^verbatim>\<open>Init\<close>, as far as the state above goes.\<close>

definition Init :: "string list \<Rightarrow> state" where
  "Init line =
     \<lparr>mIsTracking = False, mTrackStrayMarkers = True,
      mStrayMarkers = replicate 50 (replicate 5 0),
      mSerialBuffer = [], mSerialBufferPointer = 0,
      mTools = [], mPortToTool = [], mToolNames = [],
      port_out = [], port_in = line, events = []\<rparr>"

section \<open>Example data\<close>

text \<open>
  The rotation matrix of a quaternion by the usual formula, without normalisation. It
  stands in for the conversion of the cisst library in the examples only.
\<close>

definition quaternion_rotation :: "vctQuatRot3 \<Rightarrow> vctMatRot3" where
  "quaternion_rotation q = (case q of (w, x, y, z) \<Rightarrow>
     ((1 - 2 * (y * y + z * z), 2 * (x * y - w * z), 2 * (x * z + w * y)),
      (2 * (x * y + w * z), 1 - 2 * (x * x + z * z), 2 * (y * z - w * x)),
      (2 * (x * z - w * y), 2 * (y * z + w * x), 1 - 2 * (x * x + y * y))))"

text \<open>
  One row of a \<open>TX\<close> reply for the handle \<open>01\<close>: the quaternion (1, 0, 0, 0), the
  translation (100.00, 0, 0), the error 0.0100, the port status and the frame number 1;
  and a state whose buffer holds it, with a probe on that handle whose tooltip offset
  is (0, 0, 5).
\<close>

definition probe_row :: string where
  "probe_row = ''01+10000+00000+00000+00000+010000+000000+000000+0010000000000'' @ ''00000001'' @ [LF]"

definition probe_state :: state where
  "probe_state = (Init [])\<lparr>mSerialBuffer := probe_row,
      mTools := [(''probe'', new_Tool\<lparr>Name := ''probe'', TooltipOffset := (0, 0, 5)\<rparr>)],
      mPortToTool := [(''01'', ''probe'')]\<rparr>"

text \<open>
  A stray-marker block with three markers, the flag byte \<open>0x0E\<close> and the system status
  behind them, and a state whose buffer holds it; and a state whose buffer announces
  \<open>0x33\<close>, that is 51, markers.
\<close>

definition stray_text :: string where
  "stray_text = ''03'' @ [CHR 0x0E] @ ''+012345-000050+000000'' @ ''+000100+000200+000300''
      @ ''-000001-000002-000003'' @ ''0000''"

definition stray_state :: state where
  "stray_state = (Init [])\<lparr>mSerialBuffer := stray_text\<rparr>"

definition crowded_state :: state where
  "crowded_state = (Init [])\<lparr>mSerialBuffer := ''33''\<rparr>"

section \<open>Facts about the CRC\<close>

lemma nat_and_255: "(n :: nat) AND 255 = n mod 256"
proof -
  have "(255::nat) = mask 8" by (simp add: mask_eq_exp_minus_1)
  then have "n AND 255 = take_bit 8 n" by (simp only: take_bit_eq_mask)
  then show ?thesis by (simp add: take_bit_eq_mod)
qed

lemma nat_and_15: "(n :: nat) AND 15 = n mod 16"
proof -
  have "(15::nat) = mask 4" by (simp add: mask_eq_exp_minus_1)
  then have "n AND 15 = take_bit 4 n" by (simp only: take_bit_eq_mask)
  then show ?thesis by (simp add: take_bit_eq_mod)
qed

lemma unat_of_char: "unat (of_char c :: 32 word) = of_char c"
proof -
  have eq: "(of_char c :: 32 word) = of_nat (of_char c)" by (simp add: of_nat_of_char)
  have "(of_char c :: nat) < 2 ^ LENGTH(32)"
    by (rule less_le_trans [OF nat_of_char_less_256]) simp
  then show ?thesis unfolding eq by (simp only: unat_of_nat mod_less)
qed

lemma unat_shl:
  fixes t :: "32 word"
  assumes "unat t < 256" and "k \<le> 7"
  shows "unat (push_bit k t) = unat t * 2 ^ k"
proof -
  have "(2::nat) ^ k \<le> 2 ^ 7" using assms(2) by (intro power_increasing) simp_all
  then have "unat t * 2 ^ k \<le> 255 * 2 ^ 7" using assms(1) by (intro mult_mono) simp_all
  then have "push_bit k (unat t) < 2 ^ LENGTH(32)" by (simp add: push_bit_eq_mult)
  then have self: "take_bit LENGTH(32) (push_bit k (unat t)) = push_bit k (unat t)"
    by (rule take_bit_nat_eq_self)
  have "unat (push_bit k t) = take_bit LENGTH(32) (push_bit k (unat t))"
    by (rule unsigned_push_bit_eq)
  also note self
  finally show ?thesis by (simp only: push_bit_nat_def)
qed

lemma parity_tables_agree:
  assumes "n < 16" and "m < 16"
  shows "(oddParity ! n XOR oddParity ! m \<noteq> 0)
       = (spec_parity_table ! n XOR spec_parity_table ! m = 1)"
proof -
  have bit: "k < 16 \<Longrightarrow> (oddParity ! k = 0 \<and> spec_parity_table ! k = 0)
                      \<or> (oddParity ! k = 1 \<and> spec_parity_table ! k = 1)" for k
  proof -
    assume "k < 16"
    then have "k \<in> {0, 1, 2, 3, 4, 5, 6, 7, 8, 9, 10, 11, 12, 13, 14, 15}"
      by simp arith
    then show ?thesis
      by (auto simp: oddParity_def spec_parity_table_def)
  qed
  from bit [OF assms(1)] bit [OF assms(2)] show ?thesis by auto
qed

lemma nat_xor_lt_2p:
  fixes a b :: nat
  assumes "a < 2 ^ n" and "b < 2 ^ n"
  shows "a XOR b < 2 ^ n"
proof -
  have "take_bit n (a XOR b) = take_bit n a XOR take_bit n b"
    by (rule take_bit_xor)
  also have "\<dots> = a XOR b"
    using assms by (simp add: take_bit_nat_eq_self)
  finally show ?thesis
    by (simp only: take_bit_nat_eq_self_iff)
qed

lemma crc_update_spec: "unat (crc_update w c) = spec_crc_step (unat w) (of_char c)"
proof -
  define t :: "32 word" where "t = (of_char c XOR (w AND 0xff)) AND 0xff"
  define n :: nat where "n = (of_char c XOR (unat w AND 0xFF)) AND 0xFF"
  have tn: "unat t = n"
    by (simp add: t_def n_def unsigned_and_eq unsigned_xor_eq unat_of_char)
  have n256: "n < 256"
    by (simp add: n_def nat_and_255)
  then have t256: "unat t < 256"
    by (simp add: tn)
  have lo: "unat (t AND 0x0f) = n mod 16"
    by (simp add: unsigned_and_eq tn nat_and_15)
  have hi: "unat (drop_bit 4 t) = n div 16"
    by (simp only: unat_drop_bit_eq tn drop_bit_nat_def) simp
  have hi16: "n div 16 < 16"
    using n256 by simp
  have par: "(oddParity ! unat (t AND 0x0f) XOR oddParity ! unat (drop_bit 4 t) \<noteq> 0)
           = (spec_parity_table ! (n mod 16) XOR spec_parity_table ! (n div 16) = 1)"
    unfolding lo hi by (rule parity_tables_agree) (simp_all add: hi16)
  have s6: "unat (push_bit 6 t) = n * 2 ^ 6"
    using unat_shl [OF t256, of 6] by (simp add: tn)
  have s7: "unat (push_bit 1 (push_bit 6 t)) = n * 2 ^ 6 * 2"
  proof -
    have "push_bit 1 (push_bit 6 t) = push_bit 7 t"
      by (simp add: push_bit_eq_mult)
    then show ?thesis
      using unat_shl [OF t256, of 7] by (simp add: tn)
  qed
  have sh: "unat (drop_bit 8 w) = unat w div 2 ^ 8"
    by (simp only: unat_drop_bit_eq drop_bit_nat_def)
  show ?thesis
    unfolding crc_update_def spec_crc_step_def Let_def t_def [symmetric] n_def [symmetric] par
    using s6 s7 sh
    by (simp only: unsigned_xor_eq if_distrib [of unat] unat_numeral) simp
qed


lemma ComputeCRC_loop_spec:
  "NUL \<notin> set cs \<Longrightarrow>
     unat (ComputeCRC_loop w cs) = foldl spec_crc_step (unat w) (map of_char cs)"
  by (induction cs arbitrary: w) (auto simp: crc_update_spec)

lemma ComputeCRC_loop_stop:
  "NUL \<notin> set cs \<Longrightarrow> ComputeCRC_loop w (cs @ NUL # rest) = ComputeCRC_loop w cs"
  by (induction cs arbitrary: w) auto

lemma ComputeCRC_loop_cstr: "ComputeCRC_loop w mem = ComputeCRC_loop w (cstr mem)"
  by (induction mem arbitrary: w) (simp_all add: cstr_def)

lemma spec_crc_step_16bit:
  assumes "crc < 2 ^ 16"
  shows "spec_crc_step crc b < 2 ^ 16"
proof -
  define t where "t = (b XOR (crc AND 0xFF)) AND 0xFF"
  have t: "t < 256" by (simp add: t_def nat_and_255)
  have a: "crc div 2 ^ 8 < 2 ^ 16" using assms by simp
  have b: "(0xC001::nat) < 2 ^ 16" by simp
  have c: "t * 2 ^ 6 < 2 ^ 16" using t by simp
  have d: "t * 2 ^ 6 * 2 < 2 ^ 16" using t by simp
  define crc2 where "crc2 =
    (if spec_parity_table ! (t mod 16) XOR spec_parity_table ! (t div 16) = 1
     then crc div 2 ^ 8 XOR 0xC001 else crc div 2 ^ 8)"
  have e: "crc2 < 2 ^ 16"
    unfolding crc2_def using a nat_xor_lt_2p [OF a b] by (rule_tac if_split [THEN iffD2]) blast
  have "(crc2 XOR t * 2 ^ 6) XOR t * 2 ^ 6 * 2 < 2 ^ 16"
    by (intro nat_xor_lt_2p e c d)
  then show ?thesis
    unfolding spec_crc_step_def Let_def t_def [symmetric] crc2_def [symmetric] .
qed

lemma ComputeCRC_loop_16bit:
  "unat w < 2 ^ 16 \<Longrightarrow> unat (ComputeCRC_loop w cs) < 2 ^ 16"
proof (induction cs arbitrary: w)
  case Nil
  then show ?case by simp
next
  case (Cons c cs)
  have "unat (crc_update w c) < 2 ^ 16"
    unfolding crc_update_spec by (rule spec_crc_step_16bit) (rule Cons.prems)
  then show ?case using Cons by simp
qed

lemma ComputeCRC_16bit: "unat (ComputeCRC data) < 2 ^ 16"
  unfolding ComputeCRC_def by (rule ComputeCRC_loop_16bit) simp

text \<open>
  Claim C1. \<^verbatim>\<open>ComputeCRC\<close> of the payload \<open>OKAY\<close> is the 16-bit value \<open>0xA896\<close>, which
  \<^verbatim>\<open>"%04X"\<close> prints as \<open>A896\<close>. For every byte string without NUL the result is what
  the update rule of the specification gives, byte by byte from 0, it fits 16 bits,
  and the computation stops at the first zero byte: what follows it has no effect.
\<close>

theorem ComputeCRC_OKAY_and_update_rule:
  "ComputeCRC ''OKAY'' = 0xA896
   \<and> fmt_0X 4 (unat (ComputeCRC ''OKAY'')) = ''A896''
   \<and> (\<forall>data. NUL \<notin> set data \<longrightarrow>
         unat (ComputeCRC data) = spec_crc (map of_char data)
         \<and> unat (ComputeCRC data) < 2 ^ 16
         \<and> (\<forall>rest. ComputeCRC (data @ NUL # rest) = ComputeCRC data))"
proof (intro conjI allI impI)
  show okay: "ComputeCRC ''OKAY'' = 0xA896"
    by (simp add: ComputeCRC_def crc_update_def oddParity_def Let_def)
  show "fmt_0X 4 (unat (ComputeCRC ''OKAY'')) = ''A896''"
    unfolding okay by (simp add: fmt_0X_def hex_of_nat.simps hex_digit_def)
next
  fix data :: string
  assume "NUL \<notin> set data"
  then show "unat (ComputeCRC data) = spec_crc (map of_char data)"
    by (simp add: ComputeCRC_def spec_crc_def ComputeCRC_loop_spec)
next
  fix data :: string
  show "unat (ComputeCRC data) < 2 ^ 16"
    by (rule ComputeCRC_16bit)
next
  fix data rest :: string
  assume "NUL \<notin> set data"
  then show "ComputeCRC (data @ NUL # rest) = ComputeCRC data"
    by (simp add: ComputeCRC_def ComputeCRC_loop_stop)
qed

theorem ComputeCRC_OKAY_and_update_rule_witness:
  "NUL \<notin> set ''RESET''
   \<and> unat (ComputeCRC ''RESET'') = spec_crc (map of_char ''RESET'')
   \<and> spec_crc (map of_char ''RESET'') = 0xBE6F
   \<and> ComputeCRC (''RESET'' @ NUL # ''BE6F'') = ComputeCRC ''RESET''"
proof -
  have nul: "NUL \<notin> set ''RESET''" by simp
  have val: "spec_crc (map of_char ''RESET'') = 0xBE6F"
    by (simp add: spec_crc_def spec_crc_step_def spec_parity_table_def Let_def)
  from ComputeCRC_OKAY_and_update_rule nul val show ?thesis by blast
qed




lemma hex_val_hex_digit:
  assumes "d < 16"
  shows "hex_val (hex_digit d) = d" and "is_upper_hex (hex_digit d)" and "hex_digit d \<noteq> NUL"
proof -
  from assms have "d \<in> {0, 1, 2, 3, 4, 5, 6, 7, 8, 9, 10, 11, 12, 13, 14, 15}"
    by simp arith
  then show "hex_val (hex_digit d) = d" and "is_upper_hex (hex_digit d)" and "hex_digit d \<noteq> NUL"
    by (auto simp: hex_digit_def hex_val_def is_upper_hex_def is_digit_def less_eq_char_def)
qed


lemma hex_of_nat_lt16: "n < 16 \<Longrightarrow> hex_of_nat n = [hex_digit n]"
  by (subst hex_of_nat.simps) simp

lemma hex_of_nat_ge16: "16 \<le> n \<Longrightarrow> hex_of_nat n = hex_of_nat (n div 16) @ [hex_digit (n mod 16)]"
  by (subst hex_of_nat.simps) simp

lemma replicate_small:
  "replicate 3 x = [x, x, x]" "replicate 2 x = [x, x]" "replicate (Suc 0) x = [x]"
  by (simp_all add: numeral_3_eq_3 numeral_2_eq_2)

lemma fmt_0X_4:
  assumes "n < 2 ^ 16"
  shows "fmt_0X 4 n = [hex_digit (n div 4096), hex_digit (n div 256 mod 16),
                       hex_digit (n div 16 mod 16), hex_digit (n mod 16)]"
proof -
  have d: "n div 16 div 16 = n div 256" "n div 256 div 16 = n div 4096"
    by (simp_all add: div_mult2_eq [symmetric])
  consider "n < 16" | "16 \<le> n" "n < 256" | "256 \<le> n" "n < 4096" | "4096 \<le> n"
    by linarith
  then show ?thesis
  proof cases
    case 1
    then have "n div 16 = 0" "n div 256 = 0" "n div 4096 = 0" by simp_all
    with 1 show ?thesis
      by (simp add: fmt_0X_def hex_of_nat_lt16 hex_digit_def replicate_small)
  next
    case 2
    then have "n div 16 < 16" "n div 256 = 0" "n div 4096 = 0" by simp_all
    with 2 show ?thesis
      by (simp add: fmt_0X_def hex_of_nat_ge16 [of n] hex_of_nat_lt16 [of "n div 16"] hex_digit_def
          replicate_small)
  next
    case 3
    then have "16 \<le> n" "16 \<le> n div 16" "n div 256 < 16" "n div 4096 = 0" by simp_all
    then show ?thesis
      by (simp add: fmt_0X_def hex_of_nat_ge16 [of n] hex_of_nat_ge16 [of "n div 16"]
          hex_of_nat_lt16 [of "n div 256"] d hex_digit_def replicate_small)
  next
    case 4
    then have "16 \<le> n" "16 \<le> n div 16" "16 \<le> n div 256" "n div 4096 < 16"
      using assms by simp_all
    then show ?thesis
      by (simp add: fmt_0X_def hex_of_nat_ge16 [of n] hex_of_nat_ge16 [of "n div 16"]
          hex_of_nat_ge16 [of "n div 256"] hex_of_nat_lt16 [of "n div 4096"] d)
  qed
qed


lemma fmt_0X_4_props:
  assumes "n < 2 ^ 16"
  shows "length (fmt_0X 4 n) = 4" and "list_all is_upper_hex (fmt_0X 4 n)"
    and "NUL \<notin> set (fmt_0X 4 n)" and "hex_value (fmt_0X 4 n) = n"
proof -
  have b: "n div 4096 < 16" "n div 256 mod 16 < 16" "n div 16 mod 16 < 16" "n mod 16 < 16"
    using assms by simp_all
  show "length (fmt_0X 4 n) = 4"
    by (simp add: fmt_0X_4 [OF assms])
  show "list_all is_upper_hex (fmt_0X 4 n)"
    by (simp add: fmt_0X_4 [OF assms] hex_val_hex_digit(2) b)
  show "NUL \<notin> set (fmt_0X 4 n)"
    using hex_val_hex_digit(3) [OF b(1)] hex_val_hex_digit(3) [OF b(2)]
      hex_val_hex_digit(3) [OF b(3)] hex_val_hex_digit(3) [OF b(4)]
    by (simp add: fmt_0X_4 [OF assms])
  have e1: "16 * (n div 16) + n mod 16 = n"
    by (rule mult_div_mod_eq)
  have e2: "16 * (n div 256) + n div 16 mod 16 = n div 16"
    using mult_div_mod_eq [of 16 "n div 16"] by (simp add: div_mult2_eq [symmetric])
  have e3: "16 * (n div 4096) + n div 256 mod 16 = n div 256"
    using mult_div_mod_eq [of 16 "n div 256"] by (simp add: div_mult2_eq [symmetric])
  have "hex_value (fmt_0X 4 n)
      = 16 * (16 * (16 * (n div 4096) + n div 256 mod 16) + n div 16 mod 16) + n mod 16"
    by (simp add: fmt_0X_4 [OF assms] hex_value_def hex_val_hex_digit(1) b)
  also have "\<dots> = n"
    by (simp only: e3 e2 e1)
  finally show "hex_value (fmt_0X 4 n) = n" .
qed



lemma cstr_no_NUL: "NUL \<notin> set xs \<Longrightarrow> cstr xs = xs"
  by (auto simp: cstr_def takeWhile_eq_all_conv)


lemma cstr_NUL_free: "NUL \<notin> set (cstr xs)"
  by (auto simp: cstr_def dest: set_takeWhileD)


lemma ComputeCRC_payload:
  "NUL \<notin> set payload \<Longrightarrow> ComputeCRC (payload @ NUL # rest) = ComputeCRC payload"
  by (simp add: ComputeCRC_def ComputeCRC_loop_stop)

text \<open>
  The check on a buffer that holds a payload, four characters and the carriage return,
  with the cursor behind them.
\<close>

lemma ResponseCheckCRC_received:
  assumes nul: "NUL \<notin> set payload" and len: "length digits = 4"
    and buf: "mSerialBuffer s = payload @ digits @ [CR] @ rest"
    and ptr: "mSerialBufferPointer s = length payload + 5"
  shows "ResponseCheckCRC s =
           Inr (cstr digits = fmt_0X 4 (unat (ComputeCRC payload)),
                s\<lparr>mSerialBuffer := payload @ NUL # tl digits @ [CR] @ rest,
                  mSerialBufferPointer := length payload + 1\<rparr>)"
proof -
  from len obtain a b c d where ds: "digits = [a, b, c, d]"
    by (auto simp: length_Suc_conv numeral_eq_Suc)
  have w: "mem_write (mSerialBuffer s) (length payload) [NUL] = payload @ NUL # tl digits @ [CR] @ rest"
    by (simp add: mem_write_def buf ds)
  have r: "take 4 (drop (length payload) (mSerialBuffer s)) = digits"
    by (simp add: buf len)
  have crc: "ComputeCRC (payload @ NUL # tl digits @ [CR] @ rest) = ComputeCRC payload"
    by (rule ComputeCRC_payload [OF nul])
  have f: "length (fmt_0X 4 (unat (ComputeCRC payload))) = 4"
    "NUL \<notin> set (fmt_0X 4 (unat (ComputeCRC payload)))"
    by (rule fmt_0X_4_props [OF ComputeCRC_16bit])+
  have l: "length (cstr digits) \<le> 4"
    using len by (simp add: cstr_def) (metis length_takeWhile_le)
  have cmp: "strncmp_eq (cstr digits) (fmt_0X 4 (unat (ComputeCRC payload))) 4
           = (cstr digits = fmt_0X 4 (unat (ComputeCRC payload)))"
    using f l by (simp add: strncmp_eq_def cstr_no_NUL [OF f(2)] cstr_no_NUL [OF cstr_NUL_free])
  show ?thesis
    unfolding ResponseCheckCRC_def CRC_SIZE_def Let_def
    using ptr f by (simp add: w r ComputeCRC_payload [OF nul] cmp)
qed





lemma cstr_append_no_NUL: "NUL \<notin> set xs \<Longrightarrow> cstr (xs @ ys) = xs @ cstr ys"
  by (induction xs) (auto simp: cstr_def)

lemma mem_write_0: "mem_write mem 0 bs = bs @ drop (length bs) mem"
  by (simp add: mem_write_def)

lemma mem_write_at_end:
  "mem_write (xs @ ys) (length xs) bs = xs @ bs @ drop (length bs) ys"
  by (simp add: mem_write_def)

text \<open>What a command without NUL leaves in the buffer and puts on the line.\<close>

lemma CommandSend_str_effect:
  assumes "NUL \<notin> set command"
  shows "CommandSend_str command s =
           s\<lparr>mSerialBuffer := command @ CR # NUL # drop (length command + 2) (mSerialBuffer s),
             mSerialBufferPointer := length command + 2,
             port_out := port_out s @ [command @ [CR]]\<rparr>"
proof -
  have c: "cstr command = command"
    by (rule cstr_no_NUL [OF assms])
  have w1: "mem_write (mem_write (command @ drop (length command) (mSerialBuffer s)) (length command) [CR])
              (Suc (length command)) [NUL]
          = (command @ [CR]) @ [NUL] @ drop (length command + 2) (mSerialBuffer s)"
  proof -
    define X where "X = drop (length command) (mSerialBuffer s)"
    have a: "mem_write (command @ X) (length command) [CR] = (command @ [CR]) @ drop 1 X"
      by (simp add: mem_write_at_end)
    have b: "mem_write ((command @ [CR]) @ drop 1 X) (length (command @ [CR])) [NUL]
           = (command @ [CR]) @ [NUL] @ drop (length [NUL]) (drop 1 X)"
      by (rule mem_write_at_end)
    have l: "length (command @ [CR]) = Suc (length command)"
      by simp
    have d: "drop (length [NUL]) (drop 1 X) = drop (length command + 2) (mSerialBuffer s)"
      by (simp add: X_def add.commute)
    show ?thesis
      unfolding X_def [symmetric] a using b unfolding l d .
  qed
  have s: "cstr ((command @ [CR]) @ [NUL] @ drop (length command + 2) (mSerialBuffer s)) = command @ [CR]"
    using assms by (simp add: cstr_append_no_NUL) (simp add: cstr_def)
  show ?thesis
    unfolding CommandSend_str_def CommandSend_def CommandAppend_str_def CommandAppend_char_def
      CommandInitialize_def Let_def
    using w1 s by (simp add: c mem_write_0)
qed

lemma ResponseRead_received:
  assumes "port_in s = (payload @ digits @ [CR]) # later"
    and "NUL \<notin> set payload" and "length digits = 4"
  shows "ResponseRead s =
           Inr (cstr digits = fmt_0X 4 (unat (ComputeCRC payload)),
                s\<lparr>mSerialBuffer := payload @ NUL # tl digits @ [CR]
                                      @ drop (length payload + 5) (mSerialBuffer s),
                  mSerialBufferPointer := length payload + 1,
                  port_in := later\<rparr>)"
proof -
  define s1 where "s1 = s\<lparr>mSerialBuffer := mem_write (mSerialBuffer s) 0 (payload @ digits @ [CR]),
      mSerialBufferPointer := length (payload @ digits @ [CR]), port_in := later\<rparr>"
  have b: "mSerialBuffer s1 = payload @ digits @ [CR] @ drop (length payload + 5) (mSerialBuffer s)"
    by (simp add: s1_def mem_write_0 assms(3))
  have p: "mSerialBufferPointer s1 = length payload + 5"
    by (simp add: s1_def assms(3))
  have "ResponseRead s = ResponseCheckCRC s1"
    by (simp add: ResponseRead_def assms(1) s1_def Let_def)
  also note ResponseCheckCRC_received [OF assms(2,3) b p]
  finally show ?thesis
    by (simp add: s1_def)
qed

lemma ResponseRead_silent:
  assumes "port_in s = []"
  shows "ResponseRead s = Inr (False, s\<lparr>mSerialBufferPointer := 0\<rparr>)"
  using assms by (simp add: ResponseRead_def mem_write_0 Let_def)

lemma ResponseRead_expected_OKAY:
  assumes "port_in s = (''OKAYA896'' @ [CR]) # later"
  shows "ResponseRead_expected ''OKAY'' s =
           Inr (True, s\<lparr>mSerialBuffer := ''OKAY'' @ NUL # ''896'' @ [CR] @ drop 9 (mSerialBuffer s),
                        mSerialBufferPointer := 5, port_in := later\<rparr>)"
proof -
  have crc: "unat (ComputeCRC ''OKAY'') = 0xA896"
    by (simp add: ComputeCRC_def crc_update_def oddParity_def Let_def)
  have f: "fmt_0X 4 0xA896 = ''A896''"
    by (simp add: fmt_0X_def hex_of_nat.simps hex_digit_def)
  have "ResponseRead s =
           Inr (True, s\<lparr>mSerialBuffer := ''OKAY'' @ NUL # ''896'' @ [CR] @ drop 9 (mSerialBuffer s),
                        mSerialBufferPointer := 5, port_in := later\<rparr>)"
    using ResponseRead_received [of s "''OKAY''" "''A896''" later] assms
    by (simp add: crc f cstr_def)
  then show ?thesis
    by (simp add: ResponseRead_expected_def GetSerialBufferStringSize_def strncmp_eq_def cstr_def)
qed





lemma ResponseRead_frame:
  assumes "ResponseRead s = Inr (ok, s')"
  shows "port_in s' = tl (port_in s)" and "mIsTracking s' = mIsTracking s"
    and "events s' = events s" and "port_out s' = port_out s"
    and "mStrayMarkers s' = mStrayMarkers s" and "mTools s' = mTools s"
    and "mPortToTool s' = mPortToTool s" and "mTrackStrayMarkers s' = mTrackStrayMarkers s"
  using assms
  by (auto simp: ResponseRead_def ResponseCheckCRC_def Let_def split: if_splits)

lemma CommandSend_str_frame:
  assumes "NUL \<notin> set command"
  shows "port_in (CommandSend_str command s) = port_in s"
    and "mIsTracking (CommandSend_str command s) = mIsTracking s"
    and "events (CommandSend_str command s) = events s"
    and "port_out (CommandSend_str command s) = port_out s @ [command @ [CR]]"
    and "mStrayMarkers (CommandSend_str command s) = mStrayMarkers s"
    and "mTools (CommandSend_str command s) = mTools s"
    and "mPortToTool (CommandSend_str command s) = mPortToTool s"
    and "mTrackStrayMarkers (CommandSend_str command s) = mTrackStrayMarkers s"
  by (simp_all add: CommandSend_str_effect [OF assms])

lemma stray_block_frame:
  assumes "stray_block fresh parsePointer s = Inr s'"
  shows "\<exists>M. s' = s\<lparr>mStrayMarkers := M\<rparr>"
  using assms by (auto simp: stray_block_def Let_def split: sum.splits)

text \<open>\<^verbatim>\<open>ToggleTracking\<close> when the answer to its command is \<open>OKAY\<close>.\<close>

lemma ToggleTracking_OKAY:
  assumes "track \<noteq> mIsTracking s" and "port_in s = (''OKAYA896'' @ [CR]) # later"
  shows "\<exists>s'. ToggleTracking track s = Inr s' \<and> mIsTracking s' = track \<and> port_in s' = later
           \<and> events s' = events s @ [Tracking track]
           \<and> port_out s' = port_out s @ [(if track then ''TSTART 80'' else ''TSTOP '') @ [CR]]"
proof -
  define command where "command = (if track then ''TSTART 80'' else ''TSTOP '')"
  have nul: "NUL \<notin> set command"
    by (simp add: command_def)
  note f = CommandSend_str_frame [OF nul, of s]
  have "port_in (CommandSend_str command s) = (''OKAYA896'' @ [CR]) # later"
    using assms(2) by (simp add: f)
  note r = ResponseRead_expected_OKAY [OF this]
  show ?thesis
  proof (cases track)
    case True
    with r f assms show ?thesis
      by (simp add: ToggleTracking_def command_def)
  next
    case False
    with r f assms show ?thesis
      by (simp add: ToggleTracking_def command_def)
  qed
qed

lemma ToggleTracking_same: "track = mIsTracking s \<Longrightarrow> ToggleTracking track s = Inr s"
  by (simp add: ToggleTracking_def)

text \<open>
  Claim C9. Let \<^verbatim>\<open>ReportStrayMarkers\<close> complete, and, where tracking was off, let the
  device answer \<open>OKAY\<close> to the \<open>TSTART 80\<close> before the \<open>TX 1000\<close> exchange and to the
  \<open>TSTOP\<close> after it. Then the tracking flag is what it was before the call. What goes
  to the device is \<open>TX 1000\<close>, between \<open>TSTART 80\<close> and \<open>TSTOP\<close> where tracking was off.
\<close>

theorem ReportStrayMarkers_restores_tracking:
  assumes "ReportStrayMarkers fresh s = Inr s'"
    and "\<not> mIsTracking s \<longrightarrow>
           (\<exists>tx later. port_in s = (''OKAYA896'' @ [CR]) # tx # (''OKAYA896'' @ [CR]) # later)"
  shows "mIsTracking s' = mIsTracking s
       \<and> port_out s' = port_out s @
            (if mIsTracking s then [''TX 1000'' @ [CR]]
             else [''TSTART 80'' @ [CR], ''TX 1000'' @ [CR], ''TSTOP '' @ [CR]])"
proof -
  have nul: "NUL \<notin> set ''TX 1000''"
    by simp
  obtain s1 where t1: "ToggleTracking True s = Inr s1" and on: "mIsTracking s1"
    and in1: "mIsTracking s \<or> (\<exists>tx later. port_in s1 = tx # (''OKAYA896'' @ [CR]) # later)"
    and out1: "port_out s1 = port_out s @ (if mIsTracking s then [] else [''TSTART 80'' @ [CR]])"
  proof (cases "mIsTracking s")
    case True
    with ToggleTracking_same [of True s] that show ?thesis
      by simp
  next
    case False
    with assms(2) obtain tx later
      where "port_in s = (''OKAYA896'' @ [CR]) # tx # (''OKAYA896'' @ [CR]) # later"
      by blast
    with ToggleTracking_OKAY [of True s "tx # (''OKAYA896'' @ [CR]) # later"] False that
    show ?thesis
      by auto
  qed
  from assms(1) t1 obtain ok s2 s3
    where r: "ResponseRead (CommandSend_str ''TX 1000'' s1) = Inr (ok, s2)"
      and b: "stray_block fresh (2 + (case scan_X 2 (mSerialBuffer s2) of None \<Rightarrow> 0 | Some n \<Rightarrow> n) * (2 + 1)) s2
                = Inr s3"
      and t2: "ToggleTracking (mIsTracking s) s3 = Inr s'"
    by (auto simp: ReportStrayMarkers_def Let_def split: sum.splits prod.splits)
  note f2 = ResponseRead_frame [OF r] CommandSend_str_frame [OF nul, of s1]
  from stray_block_frame [OF b] obtain M where s3: "s3 = s2\<lparr>mStrayMarkers := M\<rparr>" ..
  have on3: "mIsTracking s3" and out3: "port_out s3 = port_out s1 @ [''TX 1000'' @ [CR]]"
    and in3: "port_in s3 = tl (port_in s1)"
    using on by (simp_all add: s3 f2)
  show ?thesis
  proof (cases "mIsTracking s")
    case True
    with t2 on3 ToggleTracking_same [of True s3] have "s' = s3"
      by simp
    with True on3 out3 out1 show ?thesis
      by simp
  next
    case False
    with in1 in3 obtain later where "port_in s3 = (''OKAYA896'' @ [CR]) # later"
      by auto
    with ToggleTracking_OKAY [of False s3 later] on3 t2 False out3 out1 show ?thesis
      by auto
  qed
qed


theorem ReportStrayMarkers_restores_tracking_witness:
  "\<not> mIsTracking (Init [''OKAYA896'' @ [CR], ''00000000F86D'' @ [CR], ''OKAYA896'' @ [CR]])
   \<and> (case ReportStrayMarkers (\<lambda>i. (0, 0, 0))
             (Init [''OKAYA896'' @ [CR], ''00000000F86D'' @ [CR], ''OKAYA896'' @ [CR]]) of
          Inl f \<Rightarrow> False
        | Inr s' \<Rightarrow> \<not> mIsTracking s'
            \<and> port_out s' = [''TSTART 80'' @ [CR], ''TX 1000'' @ [CR], ''TSTOP '' @ [CR]])"
proof -
  define s0 where "s0 = Init [''OKAYA896'' @ [CR], ''00000000F86D'' @ [CR], ''OKAYA896'' @ [CR]]"
  define fresh :: "nat \<Rightarrow> vct3" where "fresh = (\<lambda>i. (0, 0, 0))"
  have init: "\<not> mIsTracking s0" "port_out s0 = []"
    "port_in s0 = (''OKAYA896'' @ [CR]) # (''00000000F86D'' @ [CR]) # (''OKAYA896'' @ [CR]) # []"
    by (simp_all add: s0_def Init_def)
  from ToggleTracking_OKAY [of True s0, OF _ init(3)] init(1)
  obtain s1 where t1: "ToggleTracking True s0 = Inr s1" and on1: "mIsTracking s1"
    and in1: "port_in s1 = [''00000000F86D'' @ [CR], ''OKAYA896'' @ [CR]]"
    by auto
  have nul: "NUL \<notin> set ''TX 1000''"
    by simp
  define c1 where "c1 = CommandSend_str ''TX 1000'' s1"
  have inc: "port_in c1 = (''00000000'' @ ''F86D'' @ [CR]) # [''OKAYA896'' @ [CR]]"
    by (simp add: c1_def CommandSend_str_frame [OF nul] in1)
  define s2 where "s2 = c1\<lparr>mSerialBuffer := ''00000000'' @ NUL # tl ''F86D'' @ [CR]
                                      @ drop (length ''00000000'' + 5) (mSerialBuffer c1),
                  mSerialBufferPointer := length ''00000000'' + 1,
                  port_in := [''OKAYA896'' @ [CR]]\<rparr>"
  from ResponseRead_received [OF inc]
  obtain ok where r: "ResponseRead c1 = Inr (ok, s2)"
    by (simp add: s2_def)
  have n: "scan_X 2 (mSerialBuffer s2) = Some 0" "scan_X 2 (drop 2 (mSerialBuffer s2)) = Some 0"
    by (simp_all add: s2_def scan_X_def hex_value_def hex_val_def is_hex_def is_upper_hex_def
        is_digit_def less_eq_char_def)
  have b: "stray_block fresh 2 s2 = Inr (s2\<lparr>mStrayMarkers := Zeros (mStrayMarkers s2)\<rparr>)"
    by (simp add: stray_block_def n outOfVolumeReply_of_def)
  define s3 where "s3 = s2\<lparr>mStrayMarkers := Zeros (mStrayMarkers s2)\<rparr>"
  have on3: "mIsTracking s3" and in3: "port_in s3 = (''OKAYA896'' @ [CR]) # []"
    using on1 by (simp_all add: s3_def s2_def c1_def CommandSend_str_frame [OF nul])
  from ToggleTracking_OKAY [of False s3, OF _ in3] on3
  obtain s4 where t2: "ToggleTracking False s3 = Inr s4"
    by auto
  have run: "ReportStrayMarkers fresh s0 = Inr s4"
    using t1 r b t2 init(1) n(1)
    by (simp add: ReportStrayMarkers_def c1_def [symmetric] s3_def [symmetric] numeral_2_eq_2)
  have "\<not> mIsTracking s0 \<longrightarrow>
           (\<exists>tx later. port_in s0 = (''OKAYA896'' @ [CR]) # tx # (''OKAYA896'' @ [CR]) # later)"
    using init(3) by blast
  from ReportStrayMarkers_restores_tracking [OF run this] init run
  have "\<not> mIsTracking s0
   \<and> (case ReportStrayMarkers fresh s0 of
          Inl f \<Rightarrow> False
        | Inr s' \<Rightarrow> \<not> mIsTracking s'
            \<and> port_out s' = [''TSTART 80'' @ [CR], ''TX 1000'' @ [CR], ''TSTOP '' @ [CR]])"
    by simp
  then show ?thesis
    unfolding s0_def fresh_def .
qed

lemma find_Some_first:
  "\<exists>x \<in> set xs. P x \<Longrightarrow> \<exists>x. find P xs = Some x \<and> x \<in> set xs \<and> P x"
  by (induction xs) auto

lemma find_serial_Some:
  assumes "\<exists>entry \<in> set m. SerialNumber (snd entry) = serialNumber"
  shows "\<exists>entry. find (\<lambda>(name, tool). SerialNumber tool = serialNumber) m = Some entry
           \<and> entry \<in> set m \<and> SerialNumber (snd entry) = serialNumber"
  using find_Some_first [of m "\<lambda>(name, tool). SerialNumber tool = serialNumber"] assms
  by (simp add: case_prod_beta)

lemma find_serial_None:
  assumes "\<forall>entry \<in> set m. SerialNumber (snd entry) \<noteq> serialNumber"
  shows "find (\<lambda>(name, tool). SerialNumber tool = serialNumber) m = None"
  using assms by (auto simp: find_None_iff)

lemma map_of_insort_key:
  "key \<notin> fst ` set m \<Longrightarrow> map_of (insort_key fst (key, item) m) key = Some item"
  by (induction m) auto

text \<open>
  Claim C8. If the registry holds a tool with the serial number, \<^verbatim>\<open>AddTool\<close> returns a
  tool of the registry with that serial number and leaves the state as it is. Otherwise,
  if the name is free, a new tool with the name, serial number and definition given is
  stored under the name (the registry is the old one with this one entry more), the
  list of tool names is renewed and \<open>UpdatedTools\<close> is raised; and if the name is taken,
  no tool is returned and the state is as it was.
\<close>

theorem AddTool_registry:
  "((\<exists>entry \<in> set (mTools s). SerialNumber (snd entry) = serialNumber) \<longrightarrow>
      (\<exists>tool. AddTool name serialNumber toolDefinitionFile s = (Some tool, s)
         \<and> tool \<in> snd ` set (mTools s) \<and> SerialNumber tool = serialNumber))
   \<and> ((\<forall>entry \<in> set (mTools s). SerialNumber (snd entry) \<noteq> serialNumber)
        \<and> name \<notin> fst ` set (mTools s) \<longrightarrow>
      (\<exists>tool s'. AddTool name serialNumber toolDefinitionFile s = (Some tool, s')
         \<and> Name tool = name \<and> SerialNumber tool = serialNumber
         \<and> Definition tool = toolDefinitionFile
         \<and> GetItem name (mTools s') = Some tool
         \<and> set (mTools s') = insert (name, tool) (set (mTools s))
         \<and> mToolNames s' = map fst (mTools s')
         \<and> events s' = events s @ [UpdatedTools]))
   \<and> ((\<forall>entry \<in> set (mTools s). SerialNumber (snd entry) \<noteq> serialNumber)
        \<and> name \<in> fst ` set (mTools s) \<longrightarrow>
      AddTool name serialNumber toolDefinitionFile s = (None, s))"
proof (intro conjI impI)
  assume "\<exists>entry \<in> set (mTools s). SerialNumber (snd entry) = serialNumber"
  from find_serial_Some [OF this] obtain entry
    where "find (\<lambda>(name, tool). SerialNumber tool = serialNumber) (mTools s) = Some entry"
      and "entry \<in> set (mTools s)" and "SerialNumber (snd entry) = serialNumber"
    by blast
  then show "\<exists>tool. AddTool name serialNumber toolDefinitionFile s = (Some tool, s)
         \<and> tool \<in> snd ` set (mTools s) \<and> SerialNumber tool = serialNumber"
    by (auto simp: AddTool_def CheckTool_def)
next
  assume a: "(\<forall>entry \<in> set (mTools s). SerialNumber (snd entry) \<noteq> serialNumber)
        \<and> name \<notin> fst ` set (mTools s)"
  then have c: "CheckTool serialNumber s = None"
    by (simp add: CheckTool_def find_serial_None)
  from a have "name \<notin> fst ` set (mTools s)" ..
  then show "\<exists>tool s'. AddTool name serialNumber toolDefinitionFile s = (Some tool, s')
         \<and> Name tool = name \<and> SerialNumber tool = serialNumber
         \<and> Definition tool = toolDefinitionFile
         \<and> GetItem name (mTools s') = Some tool
         \<and> set (mTools s') = insert (name, tool) (set (mTools s))
         \<and> mToolNames s' = map fst (mTools s')
         \<and> events s' = events s @ [UpdatedTools]"
    by (simp add: AddTool_def c AddItem_def GetItem_def map_of_insort_key set_insort_key Let_def)
next
  assume a: "(\<forall>entry \<in> set (mTools s). SerialNumber (snd entry) \<noteq> serialNumber)
        \<and> name \<in> fst ` set (mTools s)"
  then have c: "CheckTool serialNumber s = None"
    by (simp add: CheckTool_def find_serial_None)
  from a have "name \<in> fst ` set (mTools s)" ..
  then show "AddTool name serialNumber toolDefinitionFile s = (None, s)"
    by (simp add: AddTool_def c AddItem_def Let_def)
qed

theorem AddTool_registry_witness:
  "map (\<lambda>entry. (fst entry, SerialNumber (snd entry)))
       (mTools (snd (AddTool ''probe'' ''12345678'' ''p.rom'' (Init [])))) = [(''probe'', ''12345678'')]
   \<and> AddTool ''other'' ''12345678'' [] (snd (AddTool ''probe'' ''12345678'' ''p.rom'' (Init [])))
       = (Some (new_Tool\<lparr>Name := ''probe'', SerialNumber := ''12345678'', Definition := ''p.rom''\<rparr>),
          snd (AddTool ''probe'' ''12345678'' ''p.rom'' (Init [])))
   \<and> map fst (mTools (snd (AddTool ''arm'' ''87654321'' []
         (snd (AddTool ''probe'' ''12345678'' ''p.rom'' (Init [])))))) = [''arm'', ''probe'']
   \<and> AddTool ''probe'' ''87654321'' [] (snd (AddTool ''probe'' ''12345678'' ''p.rom'' (Init [])))
       = (None, snd (AddTool ''probe'' ''12345678'' ''p.rom'' (Init [])))"
proof -
  define T where "T = new_Tool\<lparr>Name := ''probe'', SerialNumber := ''12345678'', Definition := ''p.rom''\<rparr>"
  define s1 where "s1 = snd (AddTool ''probe'' ''12345678'' ''p.rom'' (Init []))"
  have tools: "mTools s1 = [(''probe'', T)]"
    by (simp add: s1_def T_def AddTool_def CheckTool_def AddItem_def Init_def Let_def)
  have T: "SerialNumber T = ''12345678''"
    by (simp add: T_def)
  have h1: "\<exists>entry \<in> set (mTools s1). SerialNumber (snd entry) = ''12345678''"
    by (simp add: tools T)
  have h2: "(\<forall>entry \<in> set (mTools s1). SerialNumber (snd entry) \<noteq> ''87654321'')
            \<and> ''arm'' \<notin> fst ` set (mTools s1)"
    by (simp add: tools T)
  have h3: "(\<forall>entry \<in> set (mTools s1). SerialNumber (snd entry) \<noteq> ''87654321'')
            \<and> ''probe'' \<in> fst ` set (mTools s1)"
    by (simp add: tools T)
  from AddTool_registry [THEN conjunct1, rule_format, OF h1, of "''other''" "[]"]
  have a: "AddTool ''other'' ''12345678'' [] s1 = (Some T, s1)"
    by (auto simp: tools)
  from AddTool_registry [THEN conjunct2, THEN conjunct1, rule_format, OF h2, of "[]"]
  obtain tool s' where b: "AddTool ''arm'' ''87654321'' [] s1 = (Some tool, s')"
    and "set (mTools s') = insert (''arm'', tool) (set (mTools s1))"
    by blast
  have b': "map fst (mTools (snd (AddTool ''arm'' ''87654321'' [] s1))) = [''arm'', ''probe'']"
    by (simp add: AddTool_def CheckTool_def AddItem_def tools T Let_def)
  from AddTool_registry [THEN conjunct2, THEN conjunct2, rule_format, OF h3, of "[]"]
  have c: "AddTool ''probe'' ''87654321'' [] s1 = (None, s1)" .
  have m: "map (\<lambda>entry. (fst entry, SerialNumber (snd entry))) (mTools s1) = [(''probe'', ''12345678'')]"
    by (simp add: tools T)
  from m a b' c show ?thesis
    unfolding s1_def T_def by (intro conjI)
qed

lemma fmt_d_small: "fmt_d 0 = ''0''" "fmt_d 10 = ''10''" "fmt_d 1 = ''1''" "fmt_d 9 = ''9''"
  by (simp_all add: fmt_d_def dec_of_nat.simps hex_digit_def)

lemma crc_one: "fmt_0X 4 (unat (ComputeCRC ''1'')) = ''D4C1''"
proof -
  have "unat (ComputeCRC ''1'') = 0xD4C1"
    by (simp add: ComputeCRC_def crc_update_def oddParity_def Let_def)
  then show ?thesis
    by (simp add: fmt_0X_def hex_of_nat.simps hex_digit_def)
qed

text \<open>
  Claim C4 fails on the code: \<^verbatim>\<open>Beep(0)\<close> and \<^verbatim>\<open>Beep(10)\<close> are not rejected. The
  range check only writes a log line, and \<open>BEEP 0\<close> and \<open>BEEP 10\<close> go to the device,
  whose answer \<open>1\<close> then ends the call as for a count in range.
\<close>

theorem Beep_out_of_range_is_sent:
  "(case Beep 0 (Init [''1D4C1'' @ [CR]]) of
      Inl f \<Rightarrow> False
    | Inr s' \<Rightarrow> port_out s' = [''BEEP 0'' @ [CR]] \<and> port_in s' = [])
   \<and> (case Beep 10 (Init [''1D4C1'' @ [CR]]) of
      Inl f \<Rightarrow> False
    | Inr s' \<Rightarrow> port_out s' = [''BEEP 10'' @ [CR]] \<and> port_in s' = [])"
proof -
  define s0 where "s0 = Init [''1D4C1'' @ [CR]]"
  have run: "case Beep_loop n s0 of
      Inl f \<Rightarrow> False
    | Inr s' \<Rightarrow> port_out s' = [(''BEEP '' @ fmt_d n) @ [CR]] \<and> port_in s' = []"
    if n: "n = 0 \<or> n = 10" for n
  proof -
    define s1 where "s1 = CommandSend (CommandAppend_int n
        (CommandAppend_str ''BEEP '' (CommandInitialize s0)))"
    have out: "port_out s1 = [(''BEEP '' @ fmt_d n) @ [CR]]"
      and inp: "port_in s1 = (''1'' @ ''D4C1'' @ [CR]) # []"
      using n
      by (auto simp: s1_def s0_def CommandSend_def CommandAppend_int_def CommandAppend_str_def
          CommandAppend_char_def CommandInitialize_def Let_def fmt_d_small mem_write_def cstr_def
          Init_def)
    define s2 where "s2 = s1\<lparr>mSerialBuffer := ''1'' @ NUL # tl ''D4C1'' @ [CR]
                                      @ drop (length ''1'' + 5) (mSerialBuffer s1),
                  mSerialBufferPointer := length ''1'' + 1,
                  port_in := []\<rparr>"
    from ResponseRead_received [OF inp]
    have r: "ResponseRead s1 = Inr (True, s2)"
      by (simp add: s2_def crc_one cstr_def)
    have cmp: "\<not> strncmp_eq ''0'' (mSerialBuffer s2) 1"
      by (simp add: s2_def strncmp_eq_def cstr_def)
    have "Beep_loop n s0 = Inr s2"
      using cmp by (subst Beep_loop.simps) (simp add: s1_def [symmetric] r)
    then show ?thesis
      by (simp add: s2_def out)
  qed
  from run [of 0] run [of 10] show ?thesis
    unfolding s0_def by (auto simp: Beep_def fmt_d_small split: sum.splits)
qed

lemma CommandAppend_str_frame:
  "port_in (CommandAppend_str command s) = port_in s"
  "port_out (CommandAppend_str command s) = port_out s"
  by (simp_all add: CommandAppend_str_def Let_def)

lemma CommandSend_frame:
  "port_in (CommandSend s) = port_in s"
  "length (port_out (CommandSend s)) = Suc (length (port_out s))"
  by (simp_all add: CommandSend_def CommandAppend_char_def Let_def)

lemma CommandInitialize_frame:
  "port_in (CommandInitialize s) = port_in s"
  "port_out (CommandInitialize s) = port_out s"
  by (simp_all add: CommandInitialize_def)

lemma ResponseRead_expected_silent:
  assumes "port_in s = []"
  shows "ResponseRead_expected expectedMessage s = Inr (False, s\<lparr>mSerialBufferPointer := 0\<rparr>)"
  by (simp add: ResponseRead_expected_def ResponseRead_silent [OF assms])

text \<open>On a silent line every chunk is sent, one command each.\<close>

lemma upload_chunks_silent:
  assumes "port_in s = []"
  shows "\<exists>s'. upload_chunks handle k i input rest s = Inr s' \<and> port_in s' = []
           \<and> length (port_out s') = length (port_out s) + k"
  using assms
proof (induction k arbitrary: i input rest s)
  case 0
  then show ?case by simp
next
  case (Suc k)
  define input1 where "input1 = fst (ifstream_read input rest)"
  define rest1 where "rest1 = snd (ifstream_read input rest)"
  define s1 where "s1 = CommandSend (CommandAppend_str (hex_encode input1)
      (CommandAppend_str (fmt_0X 4 (i * 64))
        (CommandAppend_str handle (CommandAppend_str ''PVWR '' (CommandInitialize s)))))"
  have s1: "port_in s1 = []" "length (port_out s1) = Suc (length (port_out s))"
    using Suc.prems
    by (simp_all add: s1_def CommandSend_frame CommandAppend_str_frame CommandInitialize_frame)
  define s2 where "s2 = s1\<lparr>mSerialBufferPointer := 0\<rparr>"
  have r: "ResponseRead_expected ''OKAY'' s1 = Inr (False, s2)"
    unfolding s2_def by (rule ResponseRead_expected_silent [OF s1(1)])
  have s2: "port_in s2 = []" "length (port_out s2) = Suc (length (port_out s))"
    using s1 by (simp_all add: s2_def)
  from Suc.IH [OF s2(1), of "Suc i" input1 rest1] s2(2)
  obtain s' where "upload_chunks handle k (Suc i) input1 rest1 s2 = Inr s'"
    and "port_in s' = []" and "length (port_out s') = length (port_out s) + Suc k"
    by auto
  then show ?case
    using r
    by (simp add: Let_def case_prod_beta input1_def [symmetric] rest1_def [symmetric]
        s1_def [symmetric])
qed

text \<open>The number of chunks that \<^verbatim>\<open>LoadToolDefinitionFile\<close> sends, for every accepted size.\<close>

lemma LoadToolDefinitionFile_chunks:
  assumes "port_in s = []" and "length bytes \<le> 960"
  shows "\<exists>s'. LoadToolDefinitionFile handle (Some bytes) s = Inr s'
           \<and> length (port_out s') = length (port_out s) + (2 * length bytes) div 128 + 1"
proof -
  define x where "x = length bytes * 2"
  define q r where "q = x div 128" and "r = x mod 128"
  have "r < 128" and "128 * q + r = x"
    by (simp_all add: q_def r_def)
  then have "x + (128 - r) = 128 * (q + 1)"
    by auto
  then have "x + (128 - x mod 128) = 128 * (x div 128 + 1)"
    by (simp only: q_def r_def)
  then have "(x + (128 - x mod 128)) div 128 = x div 128 + 1"
    by (simp only: nonzero_mult_div_cancel_left)
  then have "(length bytes * 2 + (128 - length bytes * 2 mod 128)) div 128
      = (2 * length bytes) div 128 + 1"
    by (simp add: x_def mult.commute)
  with upload_chunks_silent [OF assms(1), of handle "(2 * length bytes) div 128 + 1" 0
      "replicate 64 NUL" bytes] assms(2)
  show ?thesis
    by (auto simp: LoadToolDefinitionFile_def Let_def)
qed

lemma LoadToolDefinitionFile_rejects:
  "960 < length bytes \<Longrightarrow> LoadToolDefinitionFile handle (Some bytes) s = Inr s"
  by (simp add: LoadToolDefinitionFile_def Let_def)

text \<open>
  Claim C3 fails on the code where the file size is a multiple of 64: the padding is
  then a full chunk, and a file of exactly 960 bytes is uploaded in 16 chunks, not in
  15 (a file of 64 bytes in 2). A file of 961 bytes is rejected, as claimed.
\<close>

theorem LoadToolDefinitionFile_960_bytes_16_chunks:
  "(case LoadToolDefinitionFile ''01'' (Some (replicate 960 (CHR ''A''))) (Init []) of
      Inl f \<Rightarrow> False
    | Inr s' \<Rightarrow> length (port_out s') = 16)
   \<and> (case LoadToolDefinitionFile ''01'' (Some (replicate 64 (CHR ''A''))) (Init []) of
      Inl f \<Rightarrow> False
    | Inr s' \<Rightarrow> length (port_out s') = 2)
   \<and> LoadToolDefinitionFile ''01'' (Some (replicate 961 (CHR ''A''))) (Init []) = Inr (Init [])"
proof -
  have silent: "port_in (Init []) = []" and out: "port_out (Init []) = []"
    by (simp_all add: Init_def)
  have "\<exists>s'. LoadToolDefinitionFile ''01'' (Some (replicate 960 (CHR ''A''))) (Init []) = Inr s'
           \<and> length (port_out s') = 16"
    using upload_chunks_silent [OF silent, of "''01''" 16 0 "replicate 64 NUL" "replicate 960 (CHR ''A'')"]
    by (auto simp: LoadToolDefinitionFile_def out)
  moreover have "\<exists>s'. LoadToolDefinitionFile ''01'' (Some (replicate 64 (CHR ''A''))) (Init []) = Inr s'
           \<and> length (port_out s') = 2"
    using upload_chunks_silent [OF silent, of "''01''" 2 0 "replicate 64 NUL" "replicate 64 (CHR ''A'')"]
    by (auto simp: LoadToolDefinitionFile_def out)
  moreover have "LoadToolDefinitionFile ''01'' (Some (replicate 961 (CHR ''A''))) (Init []) = Inr (Init [])"
    by (simp add: LoadToolDefinitionFile_def)
  ultimately show ?thesis
    by auto
qed

lemma GetItem_set_tool:
  assumes "GetItem name (mTools s) = Some tool"
  shows "GetItem name (mTools (set_tool name tool' s)) = Some tool'"
proof -
  have "map_of m name = Some tool \<Longrightarrow>
        map_of (map (\<lambda>(k, t). if k = name then (k, tool') else (k, t)) m) name = Some tool'" for m
    by (induction m) (auto split: if_splits)
  with assms show ?thesis
    by (simp add: GetItem_def set_tool_def)
qed

text \<open>What the numeric branch leaves in the tool, whatever the scan has delivered.\<close>

lemma Track_numeric_pose:
  assumes "Track_numeric cmn_mm FromRaw text L tool = (L', tool')"
  shows "Valid (MarkerPosition tool')" and "Valid (TooltipPosition tool')"
    and "Rotation (Position (TooltipPosition tool')) = Rotation (Position (MarkerPosition tool'))"
    and "Translation (Position (TooltipPosition tool'))
         = vct3_add (Translation (Position (MarkerPosition tool')))
             (rot_apply (Rotation (Position (MarkerPosition tool'))) (TooltipOffset tool'))"
    and "TooltipOffset tool' = TooltipOffset tool"
  using assms
  by (auto simp: Track_numeric_def Let_def SetValid_def split: prod.splits)


text \<open>A row that is read as numeric data: what the pass returns.\<close>

lemma Track_row_numeric:
  assumes "length (take 2 (cstr (drop parsePointer (mSerialBuffer s)))) = 2"
    and "GetItem (take 2 (cstr (drop parsePointer (mSerialBuffer s)))) (mPortToTool s) = Some name"
    and "GetItem name (mTools s) = Some tool"
    and "\<not> strncmp_eq (drop (parsePointer + 2) (mSerialBuffer s)) ''MISSING'' 7"
    and "\<not> strncmp_eq (drop (parsePointer + 2) (mSerialBuffer s)) ''DISABLED'' 8"
    and "\<not> strncmp_eq (drop (parsePointer + 2) (mSerialBuffer s)) ''UNOCCUPIED'' 10"
    and "Track_numeric cmn_mm FromRaw (drop (parsePointer + 2) (mSerialBuffer s))
      (L\<lparr>portHandle := take 2 (cstr (drop parsePointer (mSerialBuffer s)))\<rparr>) tool = (L2, tool1)"
  shows "\<exists>r tool2. Track_row cmn_mm FromRaw parsePointer L s = Inr (r, set_tool name tool2 s)
          \<and> MarkerPosition tool2 = MarkerPosition tool1
          \<and> TooltipPosition tool2 = TooltipPosition tool1
          \<and> TooltipOffset tool2 = TooltipOffset tool1"
proof -
  have "NUL \<notin> set (take 2 (cstr (drop parsePointer (mSerialBuffer s))))"
    using cstr_NUL_free [of "drop parsePointer (mSerialBuffer s)"]
    by (auto dest: in_set_takeD)
  then have key: "cstr (take 2 (cstr (drop parsePointer (mSerialBuffer s))))
                = take 2 (cstr (drop parsePointer (mSerialBuffer s)))"
    by (rule cstr_no_NUL)
  show ?thesis
    using assms key
    by (auto simp: Track_row_def Let_def split: option.splits)
qed

text \<open>
  Claim C6. Let a row of the reply name a port handle whose tool is in the registry, and
  let the text behind the handle start with none of \<open>MISSING\<close>, \<open>DISABLED\<close> and
  \<open>UNOCCUPIED\<close>, so that it is read as numeric data. Then the pass over the row returns,
  and the tool it leaves in the registry has both poses valid, the tooltip pose with the
  rotation of the marker pose and with the translation of the marker pose plus that
  rotation applied to the tooltip offset, which is the offset the tool had.
\<close>

theorem Track_row_tooltip_pose:
  assumes "length (take 2 (cstr (drop parsePointer (mSerialBuffer s)))) = 2"
    and "GetItem (take 2 (cstr (drop parsePointer (mSerialBuffer s)))) (mPortToTool s) = Some name"
    and "GetItem name (mTools s) = Some tool"
    and "\<not> strncmp_eq (drop (parsePointer + 2) (mSerialBuffer s)) ''MISSING'' 7"
    and "\<not> strncmp_eq (drop (parsePointer + 2) (mSerialBuffer s)) ''DISABLED'' 8"
    and "\<not> strncmp_eq (drop (parsePointer + 2) (mSerialBuffer s)) ''UNOCCUPIED'' 10"
  shows "\<exists>r s' tool'. Track_row cmn_mm FromRaw parsePointer L s = Inr (r, s')
           \<and> GetItem name (mTools s') = Some tool'
           \<and> Valid (MarkerPosition tool') \<and> Valid (TooltipPosition tool')
           \<and> Rotation (Position (TooltipPosition tool')) = Rotation (Position (MarkerPosition tool'))
           \<and> Translation (Position (TooltipPosition tool'))
               = vct3_add (Translation (Position (MarkerPosition tool')))
                   (rot_apply (Rotation (Position (MarkerPosition tool'))) (TooltipOffset tool'))
           \<and> TooltipOffset tool' = TooltipOffset tool"
proof -
  obtain L2 tool1 where n: "Track_numeric cmn_mm FromRaw (drop (parsePointer + 2) (mSerialBuffer s))
      (L\<lparr>portHandle := take 2 (cstr (drop parsePointer (mSerialBuffer s)))\<rparr>) tool = (L2, tool1)"
    by (cases "Track_numeric cmn_mm FromRaw (drop (parsePointer + 2) (mSerialBuffer s))
      (L\<lparr>portHandle := take 2 (cstr (drop parsePointer (mSerialBuffer s)))\<rparr>) tool")
  from Track_row_numeric [OF assms n]
  obtain r tool2 where run: "Track_row cmn_mm FromRaw parsePointer L s = Inr (r, set_tool name tool2 s)"
    and same: "MarkerPosition tool2 = MarkerPosition tool1" "TooltipPosition tool2 = TooltipPosition tool1"
      "TooltipOffset tool2 = TooltipOffset tool1"
    by blast
  from Track_numeric_pose [OF n] same GetItem_set_tool [OF assms(3), of tool2] run
  show ?thesis
    by auto
qed

lemma scan_probe_row:
  "scan_lfs [6, 6, 6, 6, 7, 7, 7, 6] (drop 2 probe_row) = [10000, 0, 0, 0, 10000, 0, 0, 100]"
  by (simp add: probe_row_def scan_lf_def dec_value_def hex_val_def is_digit_def less_eq_char_def Let_def)


lemma probe_row_handle:
  "take 2 (cstr (drop 0 (mSerialBuffer probe_state))) = ''01''"
  "\<not> strncmp_eq (drop (0 + 2) (mSerialBuffer probe_state)) ''MISSING'' 7"
  "\<not> strncmp_eq (drop (0 + 2) (mSerialBuffer probe_state)) ''DISABLED'' 8"
  "\<not> strncmp_eq (drop (0 + 2) (mSerialBuffer probe_state)) ''UNOCCUPIED'' 10"
  by (simp_all add: probe_state_def probe_row_def cstr_def strncmp_eq_def)

lemma probe_row_numeric:
  "MarkerPosition (snd (Track_numeric 1 quaternion_rotation (drop 2 probe_row) L tool))
   = \<lparr>Position = \<lparr>Rotation = ((1, 0, 0), (0, 1, 0), (0, 0, 1)), Translation = (100, 0, 0)\<rparr>,
      Valid = True\<rparr>"
  by (simp add: Track_numeric_def scan_probe_row scanned_def Let_def quat_Divide_def
      quaternion_rotation_def vct3_Divide_def vct3_Multiply_def SetValid_def case_prod_beta
      del: scan_lfs.simps)


theorem Track_row_tooltip_pose_witness:
  "length (take 2 (cstr (drop 0 (mSerialBuffer probe_state)))) = 2
   \<and> GetItem (take 2 (cstr (drop 0 (mSerialBuffer probe_state)))) (mPortToTool probe_state)
       = Some ''probe''
   \<and> GetItem ''probe'' (mTools probe_state)
       = Some (new_Tool\<lparr>Name := ''probe'', TooltipOffset := (0, 0, 5)\<rparr>)
   \<and> \<not> strncmp_eq (drop (0 + 2) (mSerialBuffer probe_state)) ''MISSING'' 7
   \<and> \<not> strncmp_eq (drop (0 + 2) (mSerialBuffer probe_state)) ''DISABLED'' 8
   \<and> \<not> strncmp_eq (drop (0 + 2) (mSerialBuffer probe_state)) ''UNOCCUPIED'' 10
   \<and> (\<exists>r s' tool'.
         Track_row 1 quaternion_rotation 0
           \<lparr>portHandle = [], toolOrientation = (0, 0, 0, 0), toolPosition = (0, 0, 0)\<rparr>
           probe_state = Inr (r, s')
         \<and> GetItem ''probe'' (mTools s') = Some tool'
         \<and> MarkerPosition tool'
             = \<lparr>Position = \<lparr>Rotation = ((1, 0, 0), (0, 1, 0), (0, 0, 1)), Translation = (100, 0, 0)\<rparr>,
                Valid = True\<rparr>
         \<and> TooltipPosition tool'
             = \<lparr>Position = \<lparr>Rotation = ((1, 0, 0), (0, 1, 0), (0, 0, 1)), Translation = (100, 0, 5)\<rparr>,
                Valid = True\<rparr>)"
proof -
  define L where "L = \<lparr>portHandle = [], toolOrientation = (0, 0, 0, 0), toolPosition = (0, 0, 0) :: vct3\<rparr>"
  define T where "T = new_Tool\<lparr>Name := ''probe'', TooltipOffset := (0, 0, 5)\<rparr>"
  have h1: "length (take 2 (cstr (drop 0 (mSerialBuffer probe_state)))) = 2"
    by (simp only: probe_row_handle(1)) simp
  have h2: "GetItem (take 2 (cstr (drop 0 (mSerialBuffer probe_state)))) (mPortToTool probe_state)
       = Some ''probe''"
    by (simp only: probe_row_handle(1)) (simp add: probe_state_def GetItem_def)
  have h3: "GetItem ''probe'' (mTools probe_state) = Some T"
    by (simp add: probe_state_def GetItem_def T_def)
  note h = h1 h2 h3 probe_row_handle(2,3,4)
  have "(0::nat) + 2 = 2"
    by simp
  then have buf: "drop (0 + 2) (mSerialBuffer probe_state) = drop 2 probe_row"
    by (simp only: probe_state_def) simp
  obtain L2 tool1 where n: "Track_numeric 1 quaternion_rotation (drop (0 + 2) (mSerialBuffer probe_state))
      (L\<lparr>portHandle := take 2 (cstr (drop 0 (mSerialBuffer probe_state)))\<rparr>) T = (L2, tool1)"
    by (cases "Track_numeric 1 quaternion_rotation (drop (0 + 2) (mSerialBuffer probe_state))
      (L\<lparr>portHandle := take 2 (cstr (drop 0 (mSerialBuffer probe_state)))\<rparr>) T")
  have m1: "MarkerPosition tool1 = \<lparr>Position = \<lparr>Rotation = ((1, 0, 0), (0, 1, 0), (0, 0, 1)),
      Translation = (100, 0, 0)\<rparr>, Valid = True\<rparr>"
    using probe_row_numeric [of "L\<lparr>portHandle := take 2 (cstr (drop 0 (mSerialBuffer probe_state)))\<rparr>" T] n
    by (simp only: buf snd_conv)
  from Track_row_numeric [OF h n]
  obtain r2 tool2 where run2: "Track_row 1 quaternion_rotation 0 L probe_state
      = Inr (r2, set_tool ''probe'' tool2 probe_state)"
    and m2: "MarkerPosition tool2 = MarkerPosition tool1"
    by blast
  from Track_row_tooltip_pose [OF h, of 1 quaternion_rotation L]
  obtain r s' tool' where run: "Track_row 1 quaternion_rotation 0 L probe_state = Inr (r, s')"
    and g: "GetItem ''probe'' (mTools s') = Some tool'"
    and v: "Valid (TooltipPosition tool')"
    and rot: "Rotation (Position (TooltipPosition tool')) = Rotation (Position (MarkerPosition tool'))"
    and tr: "Translation (Position (TooltipPosition tool'))
               = vct3_add (Translation (Position (MarkerPosition tool')))
                   (rot_apply (Rotation (Position (MarkerPosition tool'))) (TooltipOffset tool'))"
    and off: "TooltipOffset tool' = TooltipOffset T"
    by blast
  from run run2 g GetItem_set_tool [OF h3, of tool2] have "tool' = tool2"
    by simp
  with m1 m2 have m: "MarkerPosition tool' = \<lparr>Position = \<lparr>Rotation = ((1, 0, 0), (0, 1, 0), (0, 0, 1)),
      Translation = (100, 0, 0)\<rparr>, Valid = True\<rparr>"
    by simp
  have "Position (TooltipPosition tool') = \<lparr>Rotation = ((1, 0, 0), (0, 1, 0), (0, 0, 1)),
      Translation = (100, 0, 5)\<rparr>"
    using rot tr off
    by (cases "Position (TooltipPosition tool')")
      (simp add: m T_def vct3_add_def rot_apply_def vct3_dot_def)
  with v have t: "TooltipPosition tool' = \<lparr>Position = \<lparr>Rotation = ((1, 0, 0), (0, 1, 0), (0, 0, 1)),
      Translation = (100, 0, 5)\<rparr>, Valid = True\<rparr>"
    by (cases "TooltipPosition tool'") simp
  from h run g m t show ?thesis
    unfolding L_def T_def by blast
qed

lemma set_cells_row:
  assumes "i < length M" and "length (M ! i) = length vs"
  shows "set_cells M i 0 vs = Inr (M[i := vs])"
proof -
  have "i < length M \<Longrightarrow> j + length vs = length (M ! i) \<Longrightarrow>
        set_cells M i j vs = Inr (M[i := take j (M ! i) @ vs])" for j
  proof (induction vs arbitrary: j M)
    case Nil
    then show ?case by simp
  next
    case (Cons v vs)
    have j: "j < length (M ! i)" using Cons.prems by simp
    define M1 where "M1 = M[i := (M ! i)[j := v]]"
    have "set_cell M i j v = Inr M1"
      using Cons.prems by (simp add: set_cell_def M1_def)
    moreover have "set_cells M1 i (Suc j) vs = Inr (M1[i := take (Suc j) (M1 ! i) @ vs])"
      using Cons.prems by (intro Cons.IH) (simp_all add: M1_def)
    moreover have "take (Suc j) (M1 ! i) = take j (M ! i) @ [v]"
      using Cons.prems j by (simp add: M1_def take_Suc_conv_app_nth)
    ultimately show ?case
      by (simp add: M1_def)
  qed
  from this [of 0] assms show ?thesis
    by simp
qed

lemma set_cells_out_of_range:
  assumes "length M \<le> i" and "vs \<noteq> []"
  shows "set_cells M i 0 vs = Inl (RowOutOfRange i)"
  using assms by (cases vs) (simp_all add: set_cell_def)

lemma marker_row_length: "length (marker_row mem reply g fresh i p) = 5"
  by (simp add: marker_row_def Let_def vct3_Divide_def split: prod.splits)

text \<open>The loop writes the rows \<open>i\<close> to \<open>i + k - 1\<close> and leaves the others.\<close>

lemma stray_rows_in_range:
  assumes "i + k \<le> length M" and "\<forall>row \<in> set M. length row = 5"
  shows "stray_rows mem reply g fresh k i p M =
           Inr (take i M @ map (\<lambda>j. marker_row mem reply g fresh j (p + 21 * (j - i))) [i..<i + k]
                @ drop (i + k) M)"
  using assms
proof (induction k arbitrary: i p M)
  case 0
  then show ?case by simp
next
  case (Suc k)
  define r where "r = marker_row mem reply g fresh i p"
  define M1 where "M1 = M[i := r]"
  have i: "i < length M" using Suc.prems by simp
  with Suc.prems have "length (M ! i) = 5" by simp
  with i have w: "set_cells M i 0 r = Inr M1"
    by (simp add: set_cells_row r_def marker_row_length M1_def)
  have rows: "\<forall>row \<in> set M1. length row = 5"
    using Suc.prems(2) by (auto simp: M1_def r_def marker_row_length dest!: set_update_subset_insert [THEN subsetD])
  have "stray_rows mem reply g fresh k (Suc i) (p + 21) M1 =
           Inr (take (Suc i) M1 @ map (\<lambda>j. marker_row mem reply g fresh j (p + 21 + 21 * (j - Suc i))) [Suc i..<Suc i + k]
                @ drop (Suc i + k) M1)"
    using Suc.prems by (intro Suc.IH rows) (simp add: M1_def)
  moreover have "take (Suc i) M1 = take i M @ [r]"
    using i by (simp add: M1_def take_Suc_conv_app_nth)
  moreover have "drop (Suc i + k) M1 = drop (i + Suc k) M"
    by (simp add: M1_def)
  moreover have "map (\<lambda>j. marker_row mem reply g fresh j (p + 21 + 21 * (j - Suc i))) [Suc i..<Suc i + k]
               = map (\<lambda>j. marker_row mem reply g fresh j (p + 21 * (j - i))) [Suc i..<Suc i + k]"
  proof (rule map_cong [OF refl])
    fix j assume "j \<in> set [Suc i..<Suc i + k]"
    then have "p + 21 + 21 * (j - Suc i) = p + 21 * (j - i)"
      by auto
    then show "marker_row mem reply g fresh j (p + 21 + 21 * (j - Suc i))
             = marker_row mem reply g fresh j (p + 21 * (j - i))"
      by (rule arg_cong)
  qed
  moreover have "[i..<i + Suc k] = i # [Suc i..<Suc i + k]"
    by (simp add: upt_conv_Cons)
  ultimately show ?case
    using w by (simp add: r_def [symmetric] del: upt_Suc)
qed

text \<open>A marker count beyond the rows of the matrix ends in a write outside it.\<close>

lemma stray_rows_out_of_range:
  assumes "i \<le> length M" and "length M < i + k" and "\<forall>row \<in> set M. length row = 5"
  shows "stray_rows mem reply g fresh k i p M = Inl (RowOutOfRange (length M))"
  using assms
proof (induction k arbitrary: i p M)
  case 0
  then show ?case by simp
next
  case (Suc k)
  show ?case
  proof (cases "i < length M")
    case True
    define r where "r = marker_row mem reply g fresh i p"
    define M1 where "M1 = M[i := r]"
    from True Suc.prems have "length (M ! i) = 5" by simp
    with True have w: "set_cells M i 0 r = Inr M1"
      by (simp add: set_cells_row r_def marker_row_length M1_def)
    have rows: "\<forall>row \<in> set M1. length row = 5"
      using Suc.prems(3) by (auto simp: M1_def r_def marker_row_length dest!: set_update_subset_insert [THEN subsetD])
    have "stray_rows mem reply g fresh k (Suc i) (p + 21) M1 = Inl (RowOutOfRange (length M1))"
      using True Suc.prems by (intro Suc.IH rows) (simp_all add: M1_def)
    with w show ?thesis
      by (simp add: r_def [symmetric] M1_def)
  next
    case False
    with Suc.prems have "i = length M" by simp
    moreover have "marker_row mem reply g fresh i p \<noteq> []"
      using marker_row_length [of mem reply g fresh i p] by auto
    ultimately show ?thesis
      by (simp add: set_cells_out_of_range)
  qed
qed






lemma Zeros_50x5:
  assumes "length M = n" and "\<forall>row \<in> set M. length row = 5"
  shows "Zeros M = replicate n (replicate 5 0)"
proof -
  have "map (map (\<lambda>_. 0 :: real)) M = map (\<lambda>_. replicate 5 0) M"
    using assms(2) by (intro map_cong [OF refl]) (simp add: map_replicate_const)
  then show ?thesis
    using assms(1) by (simp add: Zeros_def map_replicate_const)
qed





text \<open>The matrix after the block, for a count that the matrix has rows for.\<close>

lemma stray_block_result:
  assumes "length (mStrayMarkers s) = 50" and "\<forall>row \<in> set (mStrayMarkers s). length row = 5"
    and "scan_X 2 (drop parsePointer (mSerialBuffer s)) = Some m" and "m \<le> 50"
  shows "stray_block fresh parsePointer s =
           Inr (s\<lparr>mStrayMarkers :=
                  map (\<lambda>j. marker_row (mSerialBuffer s)
                             (outOfVolumeReply_of (mSerialBuffer s) (parsePointer + 2) ((m + 3) div 4))
                             (4 * ((m + 3) div 4) - m) fresh j
                             (parsePointer + 2 + (m + 3) div 4 + 21 * j)) [0..<m]
                  @ replicate (50 - m) (replicate 5 0)\<rparr>)"
proof -
  define Z :: "real list list" where "Z = replicate 50 (replicate 5 0)"
  have z: "Zeros (mStrayMarkers s) = Z"
    unfolding Z_def by (rule Zeros_50x5 [OF assms(1,2)])
  have "0 + m \<le> length Z" and "\<forall>row \<in> set Z. length row = 5"
    using assms(4) by (simp_all add: Z_def)
  from stray_rows_in_range [OF this]
  have "stray_rows (mSerialBuffer s)
          (outOfVolumeReply_of (mSerialBuffer s) (parsePointer + 2) ((m + 3) div 4))
          (4 * ((m + 3) div 4) - m) fresh m 0 (parsePointer + 2 + (m + 3) div 4) Z
      = Inr (map (\<lambda>j. marker_row (mSerialBuffer s)
                             (outOfVolumeReply_of (mSerialBuffer s) (parsePointer + 2) ((m + 3) div 4))
                             (4 * ((m + 3) div 4) - m) fresh j
                             (parsePointer + 2 + (m + 3) div 4 + 21 * j)) [0..<m]
             @ replicate (50 - m) (replicate 5 0))"
    by (simp add: Z_def)
  then show ?thesis
    by (simp add: stray_block_def Let_def assms(3) z)
qed

lemma stray_block_out_of_range:
  assumes "length (mStrayMarkers s) = 50" and "\<forall>row \<in> set (mStrayMarkers s). length row = 5"
    and "scan_X 2 (drop parsePointer (mSerialBuffer s)) = Some m" and "50 < m"
  shows "stray_block fresh parsePointer s = Inl (RowOutOfRange 50)"
proof -
  define Z :: "real list list" where "Z = replicate 50 (replicate 5 0)"
  have z: "Zeros (mStrayMarkers s) = Z"
    unfolding Z_def by (rule Zeros_50x5 [OF assms(1,2)])
  have "0 \<le> length Z" and "length Z < 0 + m" and "\<forall>row \<in> set Z. length row = 5"
    using assms(4) by (simp_all add: Z_def)
  from stray_rows_out_of_range [OF this]
  have "stray_rows (mSerialBuffer s)
          (outOfVolumeReply_of (mSerialBuffer s) (parsePointer + 2) ((m + 3) div 4))
          (4 * ((m + 3) div 4) - m) fresh m 0 (parsePointer + 2 + (m + 3) div 4) Z
      = Inl (RowOutOfRange 50)"
    by (simp add: Z_def)
  then show ?thesis
    by (simp add: stray_block_def Let_def assms(3) z)
qed


lemma hex_val_lt_16: "is_hex c \<Longrightarrow> hex_val c < 16"
  by (auto simp: is_hex_def is_upper_hex_def is_digit_def hex_val_def less_eq_char_def)

text \<open>A count of two hexadecimal digits is at most 255.\<close>

lemma scan_X_2_bound:
  assumes "scan_X 2 text = Some m"
  shows "m < 256"
proof -
  define ds where "ds = takeWhile is_hex (take 2 text)"
  have m: "m = hex_value ds" and "ds \<noteq> []"
    using assms by (auto simp: scan_X_def Let_def ds_def split: if_splits)
  have len: "length ds \<le> 2"
    unfolding ds_def using length_takeWhile_le [of is_hex "take 2 text"] by simp
  have hex: "\<forall>c \<in> set ds. is_hex c"
    unfolding ds_def by (auto dest: set_takeWhileD)
  from len \<open>ds \<noteq> []\<close> consider a where "ds = [a]" | a b where "ds = [a, b]"
    by (cases ds rule: list.exhaust) (auto simp: length_Suc_conv le_Suc_eq numeral_2_eq_2)
  then show ?thesis
  proof cases
    case 1
    with hex hex_val_lt_16 [of a] show ?thesis
      by (simp add: m hex_value_def)
  next
    case 2
    with hex hex_val_lt_16 [of a] hex_val_lt_16 [of b] show ?thesis
      by (simp add: m hex_value_def)
  qed
qed



lemma stray_text_scans:
  "scan_X 2 (drop 0 stray_text) = Some 3"
  "scan_lfs [7, 7, 7] (drop (0 + 2 + (3 + 3) div 4 + 21 * 0) stray_text) = [12345, - 50, 0]"
  "scan_lfs [7, 7, 7] (drop (0 + 2 + (3 + 3) div 4 + 21 * 1) stray_text) = [100, 200, 300]"
  "scan_lfs [7, 7, 7] (drop (0 + 2 + (3 + 3) div 4 + 21 * 2) stray_text) = [- 1, - 2, - 3]"
  "byte_at stray_text (0 + 2) = CHR 0x0E"
  by (simp_all add: stray_text_def scan_X_def hex_value_def scan_lf_def dec_value_def hex_val_def
      is_hex_def is_upper_hex_def is_digit_def less_eq_char_def byte_at_def Let_def)



text \<open>
  Claim C10. The count \<open>m\<close> that the block reads from two hexadecimal digits is at most
  255, and nothing compares it with the 50 rows of the matrix: the loop writes row
  \<open>i\<close> for every \<open>i < m\<close>. So the block goes through without a write outside the matrix
  exactly when \<open>m \<le> 50\<close>; for a larger count the write to row 50 is the first one
  outside.
\<close>

theorem stray_block_rows_in_bounds:
  assumes "length (mStrayMarkers s) = 50" and "\<forall>row \<in> set (mStrayMarkers s). length row = 5"
    and "scan_X 2 (drop parsePointer (mSerialBuffer s)) = Some m"
  shows "m < 256
       \<and> ((\<exists>s'. stray_block fresh parsePointer s = Inr s') \<longleftrightarrow> m \<le> 50)
       \<and> (50 < m \<longrightarrow> stray_block fresh parsePointer s = Inl (RowOutOfRange 50))"
proof (intro conjI impI)
  show "m < 256"
    by (rule scan_X_2_bound [OF assms(3)])
  show "(\<exists>s'. stray_block fresh parsePointer s = Inr s') \<longleftrightarrow> m \<le> 50"
  proof (cases "m \<le> 50")
    case True
    with stray_block_result [OF assms this, of fresh] show ?thesis
      by simp
  next
    case False
    then have "50 < m" by simp
    with stray_block_out_of_range [OF assms this, of fresh] show ?thesis
      by simp
  qed
next
  assume "50 < m"
  then show "stray_block fresh parsePointer s = Inl (RowOutOfRange 50)"
    by (rule stray_block_out_of_range [OF assms])
qed

theorem stray_block_rows_in_bounds_witness:
  "mStrayMarkers crowded_state = replicate 50 (replicate 5 0)
   \<and> scan_X 2 (drop 0 (mSerialBuffer crowded_state)) = Some 51
   \<and> stray_block (\<lambda>i. (0, 0, 0)) 0 crowded_state = Inl (RowOutOfRange 50)
   \<and> mStrayMarkers stray_state = replicate 50 (replicate 5 0)
   \<and> scan_X 2 (drop 0 (mSerialBuffer stray_state)) = Some 3
   \<and> (\<exists>s'. stray_block (\<lambda>i. (0, 0, 0)) 0 stray_state = Inr s')"
proof -
  have c1: "length (mStrayMarkers crowded_state) = 50"
    and c2: "\<forall>row \<in> set (mStrayMarkers crowded_state). length row = 5"
    by (simp_all add: crowded_state_def Init_def)
  have c3: "scan_X 2 (drop 0 (mSerialBuffer crowded_state)) = Some 51"
    by (simp add: crowded_state_def scan_X_def hex_value_def hex_val_def is_hex_def
        is_upper_hex_def is_digit_def less_eq_char_def)
  have h1: "length (mStrayMarkers stray_state) = 50"
    and h2: "\<forall>row \<in> set (mStrayMarkers stray_state). length row = 5"
    by (simp_all add: stray_state_def Init_def)
  have h3: "scan_X 2 (drop 0 (mSerialBuffer stray_state)) = Some 3"
    using stray_text_scans(1) by (simp add: stray_state_def)
  from stray_block_rows_in_bounds [OF c1 c2 c3, of "\<lambda>i. (0, 0, 0)"]
  have c: "stray_block (\<lambda>i. (0, 0, 0)) 0 crowded_state = Inl (RowOutOfRange 50)"
    by simp
  from stray_block_rows_in_bounds [OF h1 h2 h3, of "\<lambda>i. (0, 0, 0)"]
  have h: "\<exists>s'. stray_block (\<lambda>i. (0, 0, 0)) 0 stray_state = Inr s'"
    by simp
  have m0: "mStrayMarkers crowded_state = replicate 50 (replicate 5 0)"
    "mStrayMarkers stray_state = replicate 50 (replicate 5 0)"
    by (simp_all add: crowded_state_def stray_state_def Init_def)
  from m0 c3 c h3 h show ?thesis
    by (intro conjI)
qed

text \<open>Where \<^verbatim>\<open>Track\<close> comes to the block: after the rows of the tools, with the flag set.\<close>

lemma Track_runs_stray_block:
  assumes "mTrackStrayMarkers s"
    and "ResponseRead (CommandSend_str ''TX 1001'' s) = Inr (ok, s2)"
    and "Track_tools cmn_mm FromRaw (case scan_X 2 (mSerialBuffer s2) of None \<Rightarrow> 0 | Some n \<Rightarrow> n) 2 L s2
           = Inr (Some parsePointer, s3)"
    and "mTrackStrayMarkers s3"
  shows "Track cmn_mm FromRaw L fresh s = stray_block fresh parsePointer s3"
  using assms by (simp add: Track_def Let_def)

end
